theory Spec2Isabelle
  imports Main "HOL-Library.AList"
begin

section \<open>Data model of the matchmaking server (server/index.js)\<close>

text \<open>
  The server keeps four process-wide tables (\<open>waitingPlayers\<close>, \<open>rooms\<close>,
  \<open>roomTimers\<close>, \<open>turnTimers\<close>), one mutable attribute per socket
  (\<open>socket.roomId\<close>) and the timers it has registered with the event loop.
  A socket is identified by its \<open>socket.id\<close>; a room object by the address at which
  it was allocated, because closures keep the object after its registry entry is gone.
  Everything the server sends is appended to a trace, in program order, together with
  each call of \<open>clearInterval\<close>/\<open>clearTimeout\<close>.
\<close>

type_synonym sid = string
type_synonym rid = string
type_synonym ref = nat
type_synonym handle = nat

definition ROOM_TIME_LIMIT :: int where
  "ROOM_TIME_LIMIT = 120000"

definition TURN_TIME_LIMIT :: int where
  "TURN_TIME_LIMIT = 900000"

record message =
  msg_text :: string
  msg_timestamp :: string

text \<open>
  The room object as built by \<open>rooms.set\<close> in \<open>handleMatchmaking\<close>. The object
  literal has no \<open>roomTimer\<close> property; the RETIRE handler reads one, so the field
  is kept here with \<open>None\<close> for \<open>undefined\<close>/\<open>null\<close>.
\<close>

record room =
  players :: "sid list"
  messages :: "message list"
  isFirstTurn :: bool
  playerTypes :: "(sid \<times> bool) list"
  isActive :: bool
  startTime :: nat
  currentTurn :: "sid option"
  turnTimer :: "handle option"
  roomTimer :: "handle option"

datatype server_event =
    MATCH_FOUND rid nat bool bool int
  | WAITING_FOR_PLAYER string
  | RECEIVE_MESSAGE string string bool
  | YOUR_TURN bool "bool option" "int option"
  | OPPONENT_TYPING bool
  | GUESS_RESULT bool bool string
  | GAME_OVER string
  | OPPONENT_DISCONNECTED string "bool option"
  | TIME_UPDATE int bool
  | ROOM_TIME_UP string
  | TURN_TIME_UPDATE int bool
  | TURN_TIME_UP
  | FORFEIT_RESULT string
  | OPPONENT_FORFEIT
  | ERROR string

datatype effect = Emit sid server_event | ClearTimer handle

text \<open>
  The callbacks handed to \<open>setInterval\<close> and \<open>setTimeout\<close>, with the variables
  they close over. \<open>RoomTick\<close> keeps the room object, the room id and its own
  \<open>timeLeft\<close>; \<open>TurnTick\<close> keeps room id, player id and \<open>timeLeft\<close>;
  \<open>RemoveSocketRoom\<close> is the cleanup of RETIRE and of \<open>handleDisconnect\<close>, which
  reads \<open>socket.roomId\<close> when it runs; \<open>RemoveRoom\<close> is the cleanup after the room
  time is up.
\<close>

datatype callback =
    RoomTick ref rid int
  | TurnTick rid sid int
  | RemoveSocketRoom sid
  | RemoveRoom rid

record state =
  waitingPlayers :: "(sid \<times> bool) list"
  rooms :: "rid \<rightharpoonup> ref"
  heap :: "ref \<Rightarrow> room"
  roomTimers :: "rid \<rightharpoonup> handle"
  turnTimers :: "sid \<rightharpoonup> handle"
  socketRoomId :: "sid \<rightharpoonup> rid"
  timers :: "handle \<rightharpoonup> nat \<times> callback"
  nextRef :: ref
  nextHandle :: handle
  trace :: "effect list"

definition empty_room :: room where
  "empty_room = \<lparr>players = [], messages = [], isFirstTurn = False, playerTypes = [],
     isActive = False, startTime = 0, currentTurn = None, turnTimer = None,
     roomTimer = None\<rparr>"

definition init :: state where
  "init = \<lparr>waitingPlayers = [], rooms = Map.empty, heap = (\<lambda>_. empty_room),
     roomTimers = Map.empty, turnTimers = Map.empty, socketRoomId = Map.empty,
     timers = Map.empty, nextRef = 0, nextHandle = 0, trace = []\<rparr>"

subsection \<open>Replies of the persistence service\<close>

text \<open>
  \<open>dbService\<close> is an external collaborator: each awaited call either rejects or
  resolves with a value. \<open>createConversation\<close> may resolve with nothing, or with a
  row whose \<open>conversation_id\<close> is missing or zero; \<open>submitGuess\<close> may resolve with
  nothing, in which case reading \<open>result.player1_id\<close> throws inside the \<open>try\<close>.
\<close>

datatype 'a db_result = Rejected | Resolved 'a

record conversation =
  conversation_id :: "nat option"

record guess_row =
  player1_id :: sid
  player1_is_ai :: bool
  player2_is_ai :: bool

datatype db_call =
    CreateConversation rid sid sid bool bool
  | CreateMessage rid bool string sid
  | SubmitGuess rid sid bool

text \<open>A handler either runs to its end or stops at its \<open>await\<close>.\<close>

datatype 'k suspended = Done state | Await state db_call 'k

primrec state_of :: "'k suspended \<Rightarrow> state" where
  "state_of (Done s) = s"
| "state_of (Await s c k) = s"

subsection \<open>Primitives\<close>

definition emit :: "sid \<Rightarrow> server_event \<Rightarrow> state \<Rightarrow> state" where
  "emit p ev s = s\<lparr>trace := trace s @ [Emit p ev]\<rparr>"

definition emit_all :: "sid list \<Rightarrow> server_event \<Rightarrow> state \<Rightarrow> state" where
  "emit_all ps ev s = fold (\<lambda>p. emit p ev) ps s"

definition clearTimer :: "handle \<Rightarrow> state \<Rightarrow> state" where
  "clearTimer h s = s\<lparr>timers := (timers s)(h := None), trace := trace s @ [ClearTimer h]\<rparr>"

definition setTimer :: "nat \<Rightarrow> callback \<Rightarrow> state \<Rightarrow> state" where
  "setTimer ms cb s =
     s\<lparr>timers := (timers s)(nextHandle s \<mapsto> (ms, cb)), nextHandle := Suc (nextHandle s)\<rparr>"

text \<open>
  JavaScript truthiness of a looked-up string: \<open>undefined\<close> and \<open>""\<close> are falsy.
  The result is the value itself when it is truthy.
\<close>

definition truthy :: "string option \<Rightarrow> string option" where
  "truthy v = (case v of None \<Rightarrow> None | Some x \<Rightarrow> if x = [] then None else Some x)"

text \<open>\<open>socket.roomId && rooms.has(socket.roomId)\<close>, with the room it then gets.\<close>

definition socket_room :: "state \<Rightarrow> sid \<Rightarrow> (rid \<times> ref) option" where
  "socket_room s sock =
     (case socketRoomId s sock of
        None \<Rightarrow> None
      | Some r \<Rightarrow> if r = [] then None
                  else (case rooms s r of None \<Rightarrow> None | Some a \<Rightarrow> Some (r, a)))"

definition otherPlayer :: "room \<Rightarrow> sid \<Rightarrow> sid option" where
  "otherPlayer rm sock = List.find (\<lambda>p. p \<noteq> sock) (players rm)"

definition set_inactive :: "ref \<Rightarrow> state \<Rightarrow> state" where
  "set_inactive a s = s\<lparr>heap := (heap s)(a := (heap s a)\<lparr>isActive := False\<rparr>)\<rparr>"

text \<open>\<open>if (roomTimers.has(id)) { clearInterval(roomTimers.get(id)); roomTimers.delete(id) }\<close>\<close>

definition stopRoomTimer :: "rid \<Rightarrow> state \<Rightarrow> state" where
  "stopRoomTimer r s =
     (case roomTimers s r of
        None \<Rightarrow> s
      | Some h \<Rightarrow> (clearTimer h s)\<lparr>roomTimers := (roomTimers s)(r := None)\<rparr>)"


section \<open>Timers\<close>

definition startRoomCountdown :: "rid \<Rightarrow> state \<Rightarrow> state" where
  "startRoomCountdown roomId s =
     (case rooms s roomId of
        None \<Rightarrow> s
      | Some a \<Rightarrow>
          let s1 = (case roomTimers s roomId of None \<Rightarrow> s | Some h \<Rightarrow> clearTimer h s);
              timer = nextHandle s1;
              s2 = setTimer 1000 (RoomTick a roomId (ROOM_TIME_LIMIT div 1000)) s1
          in s2\<lparr>roomTimers := (roomTimers s2)(roomId \<mapsto> timer)\<rparr>)"

definition startTurnCountdown :: "rid \<Rightarrow> sid \<Rightarrow> state \<Rightarrow> state" where
  "startTurnCountdown roomId playerId s =
     (case rooms s roomId of
        None \<Rightarrow> s
      | Some a \<Rightarrow>
          let s1 = (case turnTimers s playerId of None \<Rightarrow> s | Some h \<Rightarrow> clearTimer h s);
              timer = nextHandle s1;
              s2 = setTimer 1000 (TurnTick roomId playerId (TURN_TIME_LIMIT div 1000)) s1
          in s2\<lparr>turnTimers := (turnTimers s2)(playerId \<mapsto> timer)\<rparr>)"

definition handleForfeit :: "rid \<Rightarrow> sid \<Rightarrow> state \<Rightarrow> state" where
  "handleForfeit roomId playerId s =
     (case rooms s roomId of
        None \<Rightarrow> s
      | Some a \<Rightarrow>
          let s1 = stopRoomTimer roomId s;
              s2 = emit playerId
                     (FORFEIT_RESULT (''You'' @ [CHR 0x27] @ ''ve lost your turn due to time running out.'')) s1
          in (case truthy (otherPlayer (heap s2 a) playerId) of
                None \<Rightarrow> s2
              | Some other \<Rightarrow> emit other OPPONENT_FORFEIT s2))"

text \<open>One run of the interval callback of \<open>startRoomCountdown\<close>; \<open>timer\<close> is its own handle.\<close>

definition room_tick :: "handle \<Rightarrow> nat \<Rightarrow> ref \<Rightarrow> rid \<Rightarrow> int \<Rightarrow> state \<Rightarrow> state" where
  "room_tick timer ms a roomId timeLeft s =
     (if \<not> isActive (heap s a)
      then (clearTimer timer s)\<lparr>roomTimers := (roomTimers s)(roomId := None)\<rparr>
      else
        let timeLeft' = timeLeft - 1;
            s1 = emit_all (players (heap s a)) (TIME_UPDATE timeLeft' (timeLeft' \<le> 30)) s
        in if timeLeft' \<le> 0
           then
             let s2 = (clearTimer timer s1)\<lparr>roomTimers := (roomTimers s1)(roomId := None)\<rparr>;
                 s3 = emit_all (players (heap s2 a))
                        (ROOM_TIME_UP (''Time'' @ [CHR 0x27] @ ''s up! Make your guess about your opponent.'')) s2;
                 s4 = set_inactive a s3
             in setTimer 5000 (RemoveRoom roomId) s4
           else s1\<lparr>timers := (timers s1)(timer \<mapsto> (ms, RoomTick a roomId timeLeft'))\<rparr>)"

text \<open>One run of the interval callback of \<open>startTurnCountdown\<close>.\<close>

definition turn_tick :: "handle \<Rightarrow> nat \<Rightarrow> rid \<Rightarrow> sid \<Rightarrow> int \<Rightarrow> state \<Rightarrow> state" where
  "turn_tick timer ms roomId playerId timeLeft s =
     (let timeLeft' = timeLeft - 1;
          s1 = emit playerId (TURN_TIME_UPDATE timeLeft' (timeLeft' \<le> 5)) s
      in if timeLeft' \<le> 0
         then
           let s2 = (clearTimer timer s1)\<lparr>turnTimers := (turnTimers s1)(playerId := None)\<rparr>;
               s3 = emit playerId TURN_TIME_UP s2
           in handleForfeit roomId playerId s3
         else s1\<lparr>timers := (timers s1)(timer \<mapsto> (ms, TurnTick roomId playerId timeLeft'))\<rparr>)"

text \<open>
  The event loop runs the callback of a live timer. A timeout is gone once it has run;
  an interval stays until it is cleared.
\<close>

definition fire :: "handle \<Rightarrow> state \<Rightarrow> state" where
  "fire h s =
     (case timers s h of
        None \<Rightarrow> s
      | Some (ms, cb) \<Rightarrow>
          (case cb of
             RoomTick a roomId timeLeft \<Rightarrow> room_tick h ms a roomId timeLeft s
           | TurnTick roomId playerId timeLeft \<Rightarrow> turn_tick h ms roomId playerId timeLeft s
           | RemoveSocketRoom sock \<Rightarrow>
               (let s1 = s\<lparr>timers := (timers s)(h := None)\<rparr>
                in case socketRoomId s1 sock of
                     None \<Rightarrow> s1
                   | Some r \<Rightarrow> s1\<lparr>rooms := (rooms s1)(r := None)\<rparr>)
           | RemoveRoom r \<Rightarrow>
               (let s1 = s\<lparr>timers := (timers s)(h := None)\<rparr>
                in s1\<lparr>rooms := (rooms s1)(r := None)\<rparr>)))"

section \<open>Matchmaking\<close>

text \<open>
  \<open>waitingPlayers\<close> is a JavaScript \<open>Map\<close>: keys are unique and iteration follows
  insertion order. \<open>AList.update\<close> appends a new key at the end and \<open>AList.delete\<close>
  removes a key, as \<open>Map.set\<close> and \<open>Map.delete\<close> do. The entry of a socket holds the
  socket and its \<open>isAI\<close> flag.

  What \<open>handleMatchmaking\<close> keeps across \<open>await dbService.createConversation\<close>: its
  socket, the two \<open>players\<close> it sliced off the waiting list, and \<open>roomId\<close>.
\<close>

datatype match_k = MatchK sid "(sid \<times> bool) list" rid

text \<open>
  Up to the \<open>await\<close>. \<open>coinAI\<close> is the outcome of \<open>Math.random() < 0.5\<close> and
  \<open>newRoomId\<close> that of \<open>generateRoomId()\<close>.
\<close>

definition handleMatchmaking_begin :: "state \<Rightarrow> sid \<Rightarrow> bool \<Rightarrow> rid \<Rightarrow> match_k suspended" where
  "handleMatchmaking_begin s sock coinAI newRoomId =
     (if socket_room s sock \<noteq> None then Done s
      else if map_of (waitingPlayers s) sock \<noteq> None then Done s
      else
        let s1 = s\<lparr>waitingPlayers := AList.update sock coinAI (waitingPlayers s)\<rparr>
        in (case waitingPlayers s1 of
              p0 # p1 # rest \<Rightarrow>
                Await s1
                  (CreateConversation newRoomId (fst p0) (fst p1) (snd p0) (snd p1))
                  (MatchK sock [p0, p1] newRoomId)
            | _ \<Rightarrow>
                Done (emit sock
                  (WAITING_FOR_PLAYER ''Waiting for another player to join...'') s1)))"

text \<open>\<open>!conversation || !conversation.conversation_id\<close> throws; a rejection throws too.\<close>

definition usable_conversation :: "conversation option db_result \<Rightarrow> nat option" where
  "usable_conversation reply =
     (case reply of
        Rejected \<Rightarrow> None
      | Resolved None \<Rightarrow> None
      | Resolved (Some c) \<Rightarrow>
          (case conversation_id c of
             None \<Rightarrow> None
           | Some n \<Rightarrow> if n = 0 then None else Some n))"

definition new_room :: "(sid \<times> bool) list \<Rightarrow> bool \<Rightarrow> nat \<Rightarrow> room" where
  "new_room ps coinFirst now =
     \<lparr>players = map fst ps, messages = [], isFirstTurn = coinFirst,
      playerTypes = fold (\<lambda>p m. AList.update (fst p) (snd p) m) ps [],
      isActive = True, startTime = now, currentTurn = None, turnTimer = None,
      roomTimer = None\<rparr>"

definition assign_room :: "rid \<Rightarrow> sid \<times> bool \<Rightarrow> state \<Rightarrow> state" where
  "assign_room roomId player s =
     s\<lparr>socketRoomId := (socketRoomId s)(fst player \<mapsto> roomId),
       waitingPlayers := AList.delete (fst player) (waitingPlayers s)\<rparr>"

definition notify_match :: "rid \<Rightarrow> nat \<Rightarrow> ref \<Rightarrow> (sid \<times> bool) \<times> nat \<Rightarrow> state \<Rightarrow> state" where
  "notify_match roomId cid a pi s =
     emit (fst (fst pi))
       (MATCH_FOUND roomId cid (snd (fst pi))
          (if snd pi = 0 then isFirstTurn (heap s a) else \<not> isFirstTurn (heap s a))
          ROOM_TIME_LIMIT) s"

text \<open>
  After the \<open>await\<close>: \<open>coinFirst\<close> is the second \<open>Math.random() < 0.5\<close> and \<open>now\<close>
  is \<open>Date.now()\<close>. The \<open>catch\<close> block is the first branch.
\<close>

definition handleMatchmaking_resume ::
  "state \<Rightarrow> match_k \<Rightarrow> conversation option db_result \<Rightarrow> bool \<Rightarrow> nat \<Rightarrow> state" where
  "handleMatchmaking_resume s k reply coinFirst now =
     (case k of MatchK sock ps roomId \<Rightarrow>
        (case usable_conversation reply of
           None \<Rightarrow>
             (let s1 = emit sock (ERROR ''Failed to join matchmaking'') s
              in s1\<lparr>waitingPlayers := AList.delete sock (waitingPlayers s1)\<rparr>)
         | Some cid \<Rightarrow>
             (let a = nextRef s;
                  s1 = s\<lparr>heap := (heap s)(a := new_room ps coinFirst now),
                         nextRef := Suc a,
                         rooms := (rooms s)(roomId \<mapsto> a)\<rparr>;
                  s2 = fold (assign_room roomId) ps s1;
                  s3 = fold (notify_match roomId cid a) (zip ps [0..<length ps]) s2
              in startRoomCountdown roomId s3)))"

text \<open>The handler when nothing else runs between the call and its reply.\<close>

definition handleMatchmaking ::
  "state \<Rightarrow> sid \<Rightarrow> bool \<Rightarrow> rid \<Rightarrow> conversation option db_result \<Rightarrow> bool \<Rightarrow> nat \<Rightarrow> state" where
  "handleMatchmaking s sock coinAI newRoomId reply coinFirst now =
     (case handleMatchmaking_begin s sock coinAI newRoomId of
        Done s' \<Rightarrow> s'
      | Await s' c k \<Rightarrow> handleMatchmaking_resume s' k reply coinFirst now)"

definition on_CANCEL_MATCHMAKING :: "state \<Rightarrow> sid \<Rightarrow> state" where
  "on_CANCEL_MATCHMAKING s sock = s\<lparr>waitingPlayers := AList.delete sock (waitingPlayers s)\<rparr>"

section \<open>Messages\<close>

text \<open>
  What the SEND\_MESSAGE handler keeps across \<open>await dbService.createMessage\<close>: its
  socket, the \<open>room\<close> object, \<open>otherPlayer\<close> and \<open>data.text\<close>.
\<close>

datatype send_k = SendK sid ref sid string

definition on_SEND_MESSAGE_begin :: "state \<Rightarrow> sid \<Rightarrow> string \<Rightarrow> send_k suspended" where
  "on_SEND_MESSAGE_begin s sock txt =
     (case socket_room s sock of
        None \<Rightarrow> Done (emit sock (ERROR ''Invalid room'') s)
      | Some (roomId, a) \<Rightarrow>
          (let rm = heap s a;
               sender = List.find (\<lambda>p. p = sock) (players rm);
               other = otherPlayer rm sock
           in case (truthy sender, truthy other) of
                (Some sn, Some ot) \<Rightarrow>
                  (let isPlayer1 = (case players rm of [] \<Rightarrow> False | p # ps \<Rightarrow> p = sock)
                   in Await s (CreateMessage roomId isPlayer1 txt sock) (SendK sock a ot txt))
              | _ \<Rightarrow> Done (emit sock (ERROR ''Invalid sender or receiver'') s)))"

text \<open>
  After the \<open>await\<close>; \<open>ts\<close> is \<open>new Date().toISOString()\<close>. The room id handed to
  \<open>startTurnCountdown\<close> is \<open>socket.roomId\<close> as it is now; with none, \<open>rooms.get\<close>
  finds no room and the function returns at once.
\<close>

definition on_SEND_MESSAGE_resume :: "state \<Rightarrow> send_k \<Rightarrow> unit db_result \<Rightarrow> string \<Rightarrow> state" where
  "on_SEND_MESSAGE_resume s k reply ts =
     (case k of SendK sock a other txt \<Rightarrow>
        (case reply of
           Rejected \<Rightarrow> emit sock (ERROR ''Failed to send message'') s
         | Resolved u \<Rightarrow>
             (let msg = \<lparr>msg_text = txt, msg_timestamp = ts\<rparr>;
                  s1 = s\<lparr>heap := (heap s)(a := (heap s a)\<lparr>messages := messages (heap s a) @ [msg]\<rparr>)\<rparr>;
                  s2 = emit sock (RECEIVE_MESSAGE txt ts True) s1;
                  s3 = emit other (RECEIVE_MESSAGE txt ts False) s2;
                  s4 = emit other (YOUR_TURN True None (Some TURN_TIME_LIMIT)) s3
              in case socketRoomId s4 sock of
                   None \<Rightarrow> s4
                 | Some roomId \<Rightarrow> startTurnCountdown roomId other s4)))"

definition on_SEND_MESSAGE :: "state \<Rightarrow> sid \<Rightarrow> string \<Rightarrow> unit db_result \<Rightarrow> string \<Rightarrow> state" where
  "on_SEND_MESSAGE s sock txt reply ts =
     (case on_SEND_MESSAGE_begin s sock txt of
        Done s' \<Rightarrow> s'
      | Await s' c k \<Rightarrow> on_SEND_MESSAGE_resume s' k reply ts)"

definition on_TYPING_STATUS :: "state \<Rightarrow> sid \<Rightarrow> bool \<Rightarrow> state" where
  "on_TYPING_STATUS s sock isTyping =
     (case socket_room s sock of
        None \<Rightarrow> s
      | Some (roomId, a) \<Rightarrow>
          (case truthy (otherPlayer (heap s a) sock) of
             None \<Rightarrow> s
           | Some other \<Rightarrow> emit other (OPPONENT_TYPING isTyping) s))"

section \<open>Guess, retirement, disconnect\<close>

text \<open>
  What the MAKE\_GUESS handler keeps across \<open>await dbService.submitGuess\<close>: its socket,
  the \<open>room\<close> object and \<open>data.isAI\<close>.
\<close>

datatype guess_k = GuessK sid ref bool

definition on_MAKE_GUESS_begin :: "state \<Rightarrow> sid \<Rightarrow> bool \<Rightarrow> guess_k suspended" where
  "on_MAKE_GUESS_begin s sock isAI =
     (case socket_room s sock of
        None \<Rightarrow> Done (emit sock (ERROR ''Invalid room'') s)
      | Some (roomId, a) \<Rightarrow>
          Await (stopRoomTimer roomId s) (SubmitGuess roomId sock isAI) (GuessK sock a isAI))"

definition actualType :: "sid \<Rightarrow> guess_row \<Rightarrow> string" where
  "actualType sock result =
     (if sock = player1_id result
      then (if player2_is_ai result then ''AI'' else ''Human'')
      else (if player1_is_ai result then ''AI'' else ''Human''))"

definition isCorrect :: "sid \<Rightarrow> bool \<Rightarrow> guess_row \<Rightarrow> bool" where
  "isCorrect sock isAI result =
     (if sock = player1_id result
      then isAI = player2_is_ai result
      else isAI = player1_is_ai result)"

definition on_MAKE_GUESS_resume :: "state \<Rightarrow> guess_k \<Rightarrow> guess_row option db_result \<Rightarrow> state" where
  "on_MAKE_GUESS_resume s k reply =
     (case k of GuessK sock a isAI \<Rightarrow>
        (case reply of
           Rejected \<Rightarrow> emit sock (ERROR ''Failed to submit guess'') s
         | Resolved None \<Rightarrow> emit sock (ERROR ''Failed to submit guess'') s
         | Resolved (Some result) \<Rightarrow>
             (let s1 = emit sock
                         (GUESS_RESULT (isCorrect sock isAI result) isAI (actualType sock result)) s
              in case truthy (otherPlayer (heap s1 a) sock) of
                   None \<Rightarrow> s1
                 | Some other \<Rightarrow>
                     emit other
                       (GAME_OVER ''Your opponent has made their guess. The game is over.'') s1)))"

definition on_MAKE_GUESS :: "state \<Rightarrow> sid \<Rightarrow> bool \<Rightarrow> guess_row option db_result \<Rightarrow> state" where
  "on_MAKE_GUESS s sock isAI reply =
     (case on_MAKE_GUESS_begin s sock isAI of
        Done s' \<Rightarrow> s'
      | Await s' c k \<Rightarrow> on_MAKE_GUESS_resume s' k reply)"

text \<open>
  RETIRE stops the timer it finds in \<open>room.roomTimer\<close>, after the first notification;
  \<open>handleDisconnect\<close> stops the one in \<open>roomTimers\<close>, before it.
\<close>

definition on_RETIRE :: "state \<Rightarrow> sid \<Rightarrow> state" where
  "on_RETIRE s sock =
     (case socket_room s sock of
        None \<Rightarrow> s
      | Some (roomId, a) \<Rightarrow>
          (let s1 =
                 (case truthy (otherPlayer (heap s a) sock) of
                    None \<Rightarrow> s
                  | Some other \<Rightarrow>
                      (let t1 = emit other
                                  (OPPONENT_DISCONNECTED ''Your opponent has retired from the game.''
                                     (map_of (playerTypes (heap s a)) sock)) s;
                           t2 = (case roomTimer (heap t1 a) of
                                   None \<Rightarrow> t1
                                 | Some h \<Rightarrow>
                                     (let u = clearTimer h t1
                                      in u\<lparr>heap := (heap u)(a := (heap u a)\<lparr>roomTimer := None\<rparr>)\<rparr>))
                       in emit other (YOUR_TURN False (Some True) None) t2));
               s2 = set_inactive a s1
           in setTimer 5000 (RemoveSocketRoom sock) s2))"

definition handleDisconnect :: "state \<Rightarrow> sid \<Rightarrow> state" where
  "handleDisconnect s sock =
     (let s0 = s\<lparr>waitingPlayers := AList.delete sock (waitingPlayers s)\<rparr>
      in case socket_room s0 sock of
           None \<Rightarrow> s0
         | Some (roomId, a) \<Rightarrow>
             (let other = otherPlayer (heap s0 a) sock;
                  s1 = stopRoomTimer roomId s0;
                  s2 = (case truthy other of
                          None \<Rightarrow> s1
                        | Some ot \<Rightarrow>
                            (let t1 = emit ot
                                        (OPPONENT_DISCONNECTED ''Your opponent has disconnected.''
                                           (map_of (playerTypes (heap s1 a)) sock)) s1
                             in emit ot (YOUR_TURN False (Some True) None) t1));
                  s3 = set_inactive a s2
              in setTimer 5000 (RemoveSocketRoom sock) s3))"

section \<open>The server as a transition system\<close>

text \<open>
  One step of the single-threaded server: an inbound event up to its \<open>await\<close> (or to
  its end), the continuation of an awaited call, or the callback of a timer. The values
  of \<open>Math.random\<close>, \<open>Date\<close> and of the persistence replies come with the event.
\<close>

datatype event =
    EvJoin sid bool rid
  | EvJoinResumed match_k "conversation option db_result" bool nat
  | EvCancel sid
  | EvSend sid string
  | EvSendResumed send_k "unit db_result" string
  | EvTyping sid bool
  | EvGuess sid bool
  | EvGuessResumed guess_k "guess_row option db_result"
  | EvRetire sid
  | EvDisconnect sid
  | EvTimer handle

fun step :: "state \<Rightarrow> event \<Rightarrow> state" where
  "step s (EvJoin sock coinAI newRoomId) = state_of (handleMatchmaking_begin s sock coinAI newRoomId)"
| "step s (EvJoinResumed k reply coinFirst now) = handleMatchmaking_resume s k reply coinFirst now"
| "step s (EvCancel sock) = on_CANCEL_MATCHMAKING s sock"
| "step s (EvSend sock txt) = state_of (on_SEND_MESSAGE_begin s sock txt)"
| "step s (EvSendResumed k reply ts) = on_SEND_MESSAGE_resume s k reply ts"
| "step s (EvTyping sock isTyping) = on_TYPING_STATUS s sock isTyping"
| "step s (EvGuess sock isAI) = state_of (on_MAKE_GUESS_begin s sock isAI)"
| "step s (EvGuessResumed k reply) = on_MAKE_GUESS_resume s k reply"
| "step s (EvRetire sock) = on_RETIRE s sock"
| "step s (EvDisconnect sock) = handleDisconnect s sock"
| "step s (EvTimer h) = fire h s"

text \<open>
  The one step that replaces the turn countdown of player \<open>p\<close>: the continuation of a
  message to \<open>p\<close> whose \<open>createMessage\<close> resolved, run while the sender's
  \<open>socket.roomId\<close> names a registered room, so that \<open>startTurnCountdown\<close> gets past
  its first line.
\<close>

definition starts_turn_timer :: "state \<Rightarrow> event \<Rightarrow> sid \<Rightarrow> bool" where
  "starts_turn_timer s e p =
     (case e of
        EvSendResumed k reply ts \<Rightarrow>
          (case k of SendK sock a other tx \<Rightarrow>
             other = p \<and>
             (case reply of
                Rejected \<Rightarrow> False
              | Resolved u \<Rightarrow>
                  (case socketRoomId s sock of
                     None \<Rightarrow> False
                   | Some roomId \<Rightarrow> rooms s roomId \<noteq> None)))
      | _ \<Rightarrow> False)"

section \<open>Well-formed states and sample runs\<close>

text \<open>
  What the JavaScript runtime guarantees about timer handles, and what the code keeps
  true of its tables: a handle not yet handed out is not live; \<open>roomTimers\<close> never
  holds the handle of a turn countdown; \<open>turnTimers\<close> holds for a player only handles
  of that player's countdowns; no room object ever gets a \<open>roomTimer\<close> property.
\<close>

definition wf_state :: "state \<Rightarrow> bool" where
  "wf_state s \<longleftrightarrow>
     (\<forall>h. nextHandle s \<le> h \<longrightarrow> timers s h = None) \<and>
     (\<forall>r h. roomTimers s r = Some h \<longrightarrow>
        h < nextHandle s \<and> (\<forall>ms rm p n. timers s h \<noteq> Some (ms, TurnTick rm p n))) \<and>
     (\<forall>p h. turnTimers s p = Some h \<longrightarrow>
        h < nextHandle s \<and> (\<forall>ms rm q n. timers s h = Some (ms, TurnTick rm q n) \<longrightarrow> q = p)) \<and>
     (\<forall>a. roomTimer (heap s a) = None)"

text \<open>
  A run from the initial state: socket \<open>a\<close> joins and waits; socket \<open>b\<close> joins and the
  two are paired in room \<open>r1\<close>; then, from there, either \<open>a\<close> sends a message, or \<open>a\<close>
  retires.
\<close>

definition st_waiting :: state where
  "st_waiting = handleMatchmaking init ''a'' False ''r1'' Rejected False 0"

definition st_paired :: state where
  "st_paired = handleMatchmaking st_waiting ''b'' True ''r1''
     (Resolved (Some \<lparr>conversation_id = Some 7\<rparr>)) True 42"

definition st_turn :: state where
  "st_turn = on_SEND_MESSAGE st_paired ''a'' ''hi'' (Resolved ()) ''t0''"

definition st_retired :: state where
  "st_retired = on_RETIRE st_paired ''a''"

definition row_ab :: guess_row where
  "row_ab = \<lparr>player1_id = ''a'', player1_is_ai = False, player2_is_ai = True\<rparr>"

text \<open>
  Further along the same run: after \<open>a\<close>'s message, \<open>a\<close> retires and the cleanup
  timeout (handle 2) removes the room while \<open>b\<close>'s turn countdown (handle 1) is still
  live; 899 ticks of that countdown later it is about to expire. And a state in which
  \<open>b\<close>'s join is still waiting for \<open>createConversation\<close>, so that two sockets are
  queued.
\<close>

definition st_gone :: state where
  "st_gone = fire 2 (on_RETIRE st_turn ''a'')"

definition st_last :: state where
  "st_last = ((fire 1) ^^ 899) st_gone"

definition st_pending :: state where
  "st_pending = state_of (handleMatchmaking_begin st_waiting ''b'' True ''r1'')"

text \<open>
  Two overlapping joins: \<open>c\<close> joins while \<open>b\<close>'s \<open>createConversation\<close> is still
  outstanding, so three sockets are queued when a reply arrives. And the run in which
  \<open>a\<close>'s guess is resolved while \<open>b\<close>'s turn countdown is live, followed by 899 ticks
  of that countdown.
\<close>

definition st_overlap :: state where
  "st_overlap = state_of (handleMatchmaking_begin st_pending ''c'' False ''r2'')"

definition st_guessed :: state where
  "st_guessed = on_MAKE_GUESS st_turn ''a'' True (Resolved (Some row_ab))"

definition st_guessed_last :: state where
  "st_guessed_last = ((fire 1) ^^ 899) st_guessed"

section \<open>Basic facts\<close>

lemma st_waiting_eq:
  "st_waiting = init\<lparr>waitingPlayers := [(''a'', False)],
     trace := [Emit ''a'' (WAITING_FOR_PLAYER ''Waiting for another player to join...'')]\<rparr>"
  by (simp add: st_waiting_def handleMatchmaking_def handleMatchmaking_begin_def init_def
      socket_room_def emit_def)

lemma st_paired_eq:
  "st_paired =
     \<lparr>waitingPlayers = [], rooms = [''r1'' \<mapsto> 0],
      heap = (\<lambda>_. empty_room)(0 := new_room [(''a'', False), (''b'', True)] True 42),
      roomTimers = [''r1'' \<mapsto> 0], turnTimers = Map.empty,
      socketRoomId = [''a'' \<mapsto> ''r1'', ''b'' \<mapsto> ''r1''],
      timers = [0 \<mapsto> (1000, RoomTick 0 ''r1'' 120)], nextRef = 1, nextHandle = 1,
      trace = [Emit ''a'' (WAITING_FOR_PLAYER ''Waiting for another player to join...''),
               Emit ''a'' (MATCH_FOUND ''r1'' 7 False True 120000),
               Emit ''b'' (MATCH_FOUND ''r1'' 7 True False 120000)]\<rparr>"
  by (simp add: st_paired_def st_waiting_eq handleMatchmaking_def handleMatchmaking_begin_def
      init_def socket_room_def emit_def handleMatchmaking_resume_def usable_conversation_def
      assign_room_def notify_match_def startRoomCountdown_def setTimer_def ROOM_TIME_LIMIT_def
      new_room_def AList.delete_eq)

lemma stopRoomTimer_fields:
  "heap (stopRoomTimer r s) = heap s"
  "rooms (stopRoomTimer r s) = rooms s"
  "waitingPlayers (stopRoomTimer r s) = waitingPlayers s"
  "turnTimers (stopRoomTimer r s) = turnTimers s"
  "socketRoomId (stopRoomTimer r s) = socketRoomId s"
  "nextHandle (stopRoomTimer r s) = nextHandle s"
  "nextRef (stopRoomTimer r s) = nextRef s"
  "roomTimers (stopRoomTimer r s) = (roomTimers s)(r := None)"
  "timers (stopRoomTimer r s) =
     (case roomTimers s r of None \<Rightarrow> timers s | Some h \<Rightarrow> (timers s)(h := None))"
  "trace (stopRoomTimer r s) =
     trace s @ (case roomTimers s r of None \<Rightarrow> [] | Some h \<Rightarrow> [ClearTimer h])"
  by (auto simp: stopRoomTimer_def clearTimer_def split: option.splits)

lemma guess_begin:
  "socket_room s sock = Some (roomId, a) \<Longrightarrow>
   on_MAKE_GUESS_begin s sock isAI =
     Await (stopRoomTimer roomId s) (SubmitGuess roomId sock isAI) (GuessK sock a isAI)"
  by (simp add: on_MAKE_GUESS_begin_def)

lemma st_pending_eq:
  "st_pending = st_waiting\<lparr>waitingPlayers := [(''a'', False), (''b'', True)]\<rparr>"
  by (simp add: st_pending_def st_waiting_eq handleMatchmaking_begin_def init_def socket_room_def)

section \<open>Guess resolution\<close>



section \<open>Joining the queue\<close>

lemma update_absent:
  "map_of al k = None \<Longrightarrow> AList.update k v al = al @ [(k, v)]"
  by (induction al) (auto split: if_splits)

lemma delete_absent:
  "map_of al k = None \<Longrightarrow> AList.delete k al = al"
  by (induction al) (auto split: if_splits)

lemma delete_appended:
  "map_of al k = None \<Longrightarrow> AList.delete k (al @ [(k, v)]) = al"
  by (induction al) (auto split: if_splits)

lemma match_begin:
  assumes "socket_room s sock = None" "map_of (waitingPlayers s) sock = None"
    "waitingPlayers s @ [(sock, coinAI)] = p0 # p1 # rest"
  shows "handleMatchmaking_begin s sock coinAI newRoomId =
     Await (s\<lparr>waitingPlayers := p0 # p1 # rest\<rparr>)
       (CreateConversation newRoomId (fst p0) (fst p1) (snd p0) (snd p1))
       (MatchK sock [p0, p1] newRoomId)"
  using assms by (simp add: handleMatchmaking_begin_def update_absent)

text \<open>
  C3 (as the code has it). When the pairing attempt of a joining socket fails because
  \<open>createConversation\<close> rejects or returns no usable reference, no room is created and
  the whole state is as before the join, except that the joining socket is sent
  \<open>ERROR 'Failed to join matchmaking'\<close>: only the joining socket leaves the queue and
  only it is notified; every socket that was queued before, the intended partner
  included, stays queued and is told nothing.
\<close>

theorem failed_pairing:
  assumes "socket_room s sock = None"
    and "map_of (waitingPlayers s) sock = None"
    and "waitingPlayers s \<noteq> []"
    and "usable_conversation reply = None"
  shows "handleMatchmaking s sock coinAI newRoomId reply coinFirst now =
           emit sock (ERROR ''Failed to join matchmaking'') s"
proof -
  obtain p0 ps where wp: "waitingPlayers s = p0 # ps"
    using assms(3) by (cases "waitingPlayers s") auto
  obtain p1 rest where ap: "ps @ [(sock, coinAI)] = p1 # rest"
    by (cases ps) auto
  have q: "waitingPlayers s @ [(sock, coinAI)] = p0 # p1 # rest"
    using wp ap by simp
  have d: "AList.delete sock (p0 # p1 # rest) = waitingPlayers s"
    using delete_appended [OF assms(2), of coinAI] q by simp
  show ?thesis
    using assms(4) d
    by (simp add: handleMatchmaking_def match_begin [OF assms(1,2) q]
        handleMatchmaking_resume_def emit_def)
qed

theorem failed_pairing_witness:
  "handleMatchmaking st_waiting ''b'' True ''r1'' (Resolved None) True 42 =
     emit ''b'' (ERROR ''Failed to join matchmaking'') st_waiting"
  using failed_pairing [of st_waiting "''b''" "Resolved None" True "''r1''" True 42]
  by (simp add: st_waiting_eq init_def socket_room_def usable_conversation_def)

text \<open>
  C3 as stated fails: \<open>a\<close> waits, \<open>b\<close> joins and \<open>createConversation\<close> rejects; \<open>a\<close>
  is still in the queue and the only new event is the error sent to \<open>b\<close>.
\<close>

theorem failed_pairing_leaves_partner_queued:
  "waitingPlayers (handleMatchmaking st_waiting ''b'' True ''r1'' Rejected True 42) =
     [(''a'', False)] \<and>
   trace (handleMatchmaking st_waiting ''b'' True ''r1'' Rejected True 42) =
     [Emit ''a'' (WAITING_FOR_PLAYER ''Waiting for another player to join...''),
      Emit ''b'' (ERROR ''Failed to join matchmaking'')] \<and>
   rooms (handleMatchmaking st_waiting ''b'' True ''r1'' Rejected True 42) ''r1'' = None"
  by (simp add: handleMatchmaking_def handleMatchmaking_begin_def handleMatchmaking_resume_def
      st_waiting_eq init_def socket_room_def usable_conversation_def emit_def)

text \<open>
  C6 (as the code has it). A join by a socket that is already in a registered room, or
  already in the waiting list, returns at once: the state is unchanged, so no second
  entry is added, and nothing is sent, neither an error nor a waiting notice.
\<close>

theorem repeated_join_is_silent:
  assumes "socket_room s sock \<noteq> None \<or> map_of (waitingPlayers s) sock \<noteq> None"
  shows "handleMatchmaking s sock coinAI newRoomId reply coinFirst now = s"
  using assms by (auto simp: handleMatchmaking_def handleMatchmaking_begin_def)

theorem repeated_join_is_silent_witness:
  "handleMatchmaking st_waiting ''a'' True ''r2'' Rejected False 0 = st_waiting \<and>
   handleMatchmaking st_paired ''a'' True ''r2'' Rejected False 0 = st_paired"
  using repeated_join_is_silent [of st_waiting "''a''" True "''r2''" Rejected False 0]
    repeated_join_is_silent [of st_paired "''a''" True "''r2''" Rejected False 0]
  by (simp add: st_waiting_eq st_paired_eq init_def socket_room_def)

text \<open>
  C6 as stated fails: \<open>a\<close> is queued and joins again; the trace is the one from before,
  with no error reported to \<open>a\<close>.
\<close>

theorem repeated_join_reports_nothing:
  "map_of (waitingPlayers st_waiting) ''a'' = Some False \<and>
   trace (handleMatchmaking st_waiting ''a'' True ''r2'' Rejected False 0) =
     [Emit ''a'' (WAITING_FOR_PLAYER ''Waiting for another player to join...'')] \<and>
   waitingPlayers (handleMatchmaking st_waiting ''a'' True ''r2'' Rejected False 0) =
     [(''a'', False)]"
  by (simp add: handleMatchmaking_def handleMatchmaking_begin_def st_waiting_eq init_def
      socket_room_def)

lemma match_resume_ok:
  assumes "usable_conversation reply = Some cid"
  shows "handleMatchmaking_resume s (MatchK sock [p0, p1] roomId) reply coinFirst now =
     startRoomCountdown roomId
       (s\<lparr>heap := (heap s)(nextRef s := new_room [p0, p1] coinFirst now),
          nextRef := Suc (nextRef s),
          rooms := (rooms s)(roomId \<mapsto> nextRef s),
          socketRoomId := (socketRoomId s)(fst p0 \<mapsto> roomId, fst p1 \<mapsto> roomId),
          waitingPlayers := AList.delete (fst p1) (AList.delete (fst p0) (waitingPlayers s)),
          trace := trace s @
            [Emit (fst p0) (MATCH_FOUND roomId cid (snd p0) coinFirst ROOM_TIME_LIMIT),
             Emit (fst p1) (MATCH_FOUND roomId cid (snd p1) (\<not> coinFirst) ROOM_TIME_LIMIT)]\<rparr>)"
  using assms
  by (simp add: handleMatchmaking_resume_def assign_room_def notify_match_def emit_def
      new_room_def Let_def)

lemma startRoomCountdown_fields:
  "heap (startRoomCountdown r s) = heap s"
  "rooms (startRoomCountdown r s) = rooms s"
  "waitingPlayers (startRoomCountdown r s) = waitingPlayers s"
  "socketRoomId (startRoomCountdown r s) = socketRoomId s"
  "turnTimers (startRoomCountdown r s) = turnTimers s"
  "nextRef (startRoomCountdown r s) = nextRef s"
  by (auto simp: startRoomCountdown_def clearTimer_def setTimer_def Let_def split: option.splits)

lemma st_overlap_eq:
  "st_overlap = st_waiting\<lparr>waitingPlayers := [(''a'', False), (''b'', True), (''c'', False)]\<rparr>"
  by (simp add: st_overlap_def st_pending_eq st_waiting_eq handleMatchmaking_begin_def init_def
      socket_room_def)

lemma delete_two:
  "AList.delete k1 (AList.delete k0 al) = [q\<leftarrow>al. fst q \<noteq> k0 \<and> fst q \<noteq> k1]"
  by (induction al) (auto simp: AList.delete_eq)

text \<open>
  C8. When the waiting list holds at least two entries after the joining socket was
  appended (\<open>p0\<close> and \<open>p1\<close> being its two earliest entries), the pairing starts at once:
  \<open>createConversation\<close> is called for \<open>p0\<close> and \<open>p1\<close>, in that order, whether or not the
  joining socket is one of them. When the call returns a usable reference, in whatever
  state \<open>s1\<close> the server is by then, the room is created with exactly these two players,
  both get MATCH\_FOUND, and both are removed from the waiting list, which keeps every
  other entry in its order. When nothing ran in between, the waiting list is left with
  the entries behind the first two.
\<close>

theorem pairing_fifo:
  assumes "socket_room s sock = None"
    and "map_of (waitingPlayers s) sock = None"
    and "waitingPlayers s @ [(sock, coinAI)] = p0 # p1 # rest"
    and "usable_conversation reply = Some cid"
    and "s' = handleMatchmaking_resume s1 (MatchK sock [p0, p1] newRoomId) reply coinFirst now"
    and "s'' = handleMatchmaking s sock coinAI newRoomId reply coinFirst now"
  shows "handleMatchmaking_begin s sock coinAI newRoomId =
           Await (s\<lparr>waitingPlayers := p0 # p1 # rest\<rparr>)
             (CreateConversation newRoomId (fst p0) (fst p1) (snd p0) (snd p1))
             (MatchK sock [p0, p1] newRoomId) \<and>
         waitingPlayers s' = [q\<leftarrow>waitingPlayers s1. fst q \<noteq> fst p0 \<and> fst q \<noteq> fst p1] \<and>
         rooms s' newRoomId = Some (nextRef s1) \<and>
         players (heap s' (nextRef s1)) = [fst p0, fst p1] \<and>
         isActive (heap s' (nextRef s1)) \<and>
         socketRoomId s' (fst p0) = Some newRoomId \<and>
         socketRoomId s' (fst p1) = Some newRoomId \<and>
         trace s' = trace s1 @
           [Emit (fst p0) (MATCH_FOUND newRoomId cid (snd p0) coinFirst ROOM_TIME_LIMIT),
            Emit (fst p1) (MATCH_FOUND newRoomId cid (snd p1) (\<not> coinFirst) ROOM_TIME_LIMIT)] @
           (case roomTimers s1 newRoomId of None \<Rightarrow> [] | Some h \<Rightarrow> [ClearTimer h]) \<and>
         (distinct (map fst (waitingPlayers s)) \<longrightarrow>
            waitingPlayers s'' = rest \<and>
            rooms s'' newRoomId = Some (nextRef s) \<and>
            players (heap s'' (nextRef s)) = [fst p0, fst p1] \<and>
            isActive (heap s'' (nextRef s)) \<and>
            socketRoomId s'' (fst p0) = Some newRoomId \<and>
            socketRoomId s'' (fst p1) = Some newRoomId)"
proof -
  have b: "handleMatchmaking_begin s sock coinAI newRoomId =
           Await (s\<lparr>waitingPlayers := p0 # p1 # rest\<rparr>)
             (CreateConversation newRoomId (fst p0) (fst p1) (snd p0) (snd p1))
             (MatchK sock [p0, p1] newRoomId)"
    by (rule match_begin [OF assms(1,2,3)])
  have tr: "trace (startRoomCountdown r t) =
      trace t @ (case rooms t r of None \<Rightarrow> []
                 | Some a \<Rightarrow> (case roomTimers t r of None \<Rightarrow> [] | Some h \<Rightarrow> [ClearTimer h]))" for r t
    by (simp add: startRoomCountdown_def setTimer_def clearTimer_def Let_def split: option.splits)
  have any: "waitingPlayers s' = [q\<leftarrow>waitingPlayers s1. fst q \<noteq> fst p0 \<and> fst q \<noteq> fst p1] \<and>
         rooms s' newRoomId = Some (nextRef s1) \<and>
         players (heap s' (nextRef s1)) = [fst p0, fst p1] \<and>
         isActive (heap s' (nextRef s1)) \<and>
         socketRoomId s' (fst p0) = Some newRoomId \<and>
         socketRoomId s' (fst p1) = Some newRoomId \<and>
         trace s' = trace s1 @
           [Emit (fst p0) (MATCH_FOUND newRoomId cid (snd p0) coinFirst ROOM_TIME_LIMIT),
            Emit (fst p1) (MATCH_FOUND newRoomId cid (snd p1) (\<not> coinFirst) ROOM_TIME_LIMIT)] @
           (case roomTimers s1 newRoomId of None \<Rightarrow> [] | Some h \<Rightarrow> [ClearTimer h])"
    by (simp add: assms(5) match_resume_ok [OF assms(4)] startRoomCountdown_fields new_room_def
        delete_two tr)
  have atomic: "waitingPlayers s'' = rest \<and>
            rooms s'' newRoomId = Some (nextRef s) \<and>
            players (heap s'' (nextRef s)) = [fst p0, fst p1] \<and>
            isActive (heap s'' (nextRef s)) \<and>
            socketRoomId s'' (fst p0) = Some newRoomId \<and>
            socketRoomId s'' (fst p1) = Some newRoomId"
    if d: "distinct (map fst (waitingPlayers s))"
  proof -
    have "sock \<notin> fst ` set (waitingPlayers s)"
      using assms(2) by (simp add: map_of_eq_None_iff)
    then have "distinct (map fst (waitingPlayers s @ [(sock, coinAI)]))"
      using d by simp
    then have dist: "distinct (map fst (p0 # p1 # rest))"
      using assms(3) by simp
    have d0: "AList.delete (fst p0) (p0 # p1 # rest) = p1 # rest"
      using dist by (auto simp: AList.delete_eq filter_id_conv rev_image_eqI)
    have d1: "AList.delete (fst p1) (p1 # rest) = rest"
      using dist by (auto simp: AList.delete_eq filter_id_conv rev_image_eqI)
    have s'': "s'' = handleMatchmaking_resume (s\<lparr>waitingPlayers := p0 # p1 # rest\<rparr>)
               (MatchK sock [p0, p1] newRoomId) reply coinFirst now"
      using assms(6) by (simp add: handleMatchmaking_def b)
    show ?thesis
      using d0 d1
      by (simp add: s'' match_resume_ok [OF assms(4)] startRoomCountdown_fields new_room_def)
  qed
  show ?thesis
    using b any atomic by blast
qed

theorem pairing_fifo_witness:
  "handleMatchmaking_begin st_waiting ''b'' True ''r1'' =
     Await st_pending (CreateConversation ''r1'' ''a'' ''b'' False True)
       (MatchK ''b'' [(''a'', False), (''b'', True)] ''r1'') \<and>
   waitingPlayers st_overlap = [(''a'', False), (''b'', True), (''c'', False)] \<and>
   waitingPlayers (handleMatchmaking_resume st_overlap (MatchK ''b'' [(''a'', False), (''b'', True)] ''r1'')
      (Resolved (Some \<lparr>conversation_id = Some 7\<rparr>)) True 42) = [(''c'', False)] \<and>
   players (heap (handleMatchmaking_resume st_overlap (MatchK ''b'' [(''a'', False), (''b'', True)] ''r1'')
      (Resolved (Some \<lparr>conversation_id = Some 7\<rparr>)) True 42) 0) = [''a'', ''b''] \<and>
   handleMatchmaking_begin st_pending ''c'' False ''r2'' =
     Await st_overlap (CreateConversation ''r2'' ''a'' ''b'' False True)
       (MatchK ''c'' [(''a'', False), (''b'', True)] ''r2'') \<and>
   waitingPlayers (handleMatchmaking st_pending ''c'' False ''r2''
      (Resolved (Some \<lparr>conversation_id = Some 8\<rparr>)) False 50) = [(''c'', False)] \<and>
   players (heap (handleMatchmaking st_pending ''c'' False ''r2''
      (Resolved (Some \<lparr>conversation_id = Some 8\<rparr>)) False 50) 0) = [''a'', ''b'']"
  using pairing_fifo [of st_waiting "''b''" True "(''a'', False)" "(''b'', True)" "[]"
      "Resolved (Some \<lparr>conversation_id = Some 7\<rparr>)" 7
      "handleMatchmaking_resume st_overlap (MatchK ''b'' [(''a'', False), (''b'', True)] ''r1'')
         (Resolved (Some \<lparr>conversation_id = Some 7\<rparr>)) True 42"
      st_overlap "''r1''" True 42
      "handleMatchmaking st_waiting ''b'' True ''r1'' (Resolved (Some \<lparr>conversation_id = Some 7\<rparr>)) True 42"]
    pairing_fifo [of st_pending "''c''" False "(''a'', False)" "(''b'', True)"
      "[(''c'', False)]" "Resolved (Some \<lparr>conversation_id = Some 8\<rparr>)" 8
      "handleMatchmaking_resume st_overlap (MatchK ''c'' [(''a'', False), (''b'', True)] ''r2'')
         (Resolved (Some \<lparr>conversation_id = Some 8\<rparr>)) False 50"
      st_overlap "''r2''" False 50
      "handleMatchmaking st_pending ''c'' False ''r2''
         (Resolved (Some \<lparr>conversation_id = Some 8\<rparr>)) False 50"]
  by (simp add: st_overlap_eq st_pending_eq st_waiting_eq init_def socket_room_def usable_conversation_def)


section \<open>Guess, continued\<close>

text \<open>
  C9. When \<open>submitGuess\<close> rejects, the handler had already stopped the room timer before
  the call; the continuation only sends \<open>ERROR 'Failed to submit guess'\<close> to the guesser,
  whatever the state is by then. Over the whole handler: the room object and the
  registry are unchanged (the room keeps its \<open>isActive\<close> flag and stays registered), the
  queue, the socket attributes and the turn timers are unchanged, the room timer entry
  is gone, and no timer is created in its place.
\<close>

theorem failed_guess:
  assumes "socket_room s sock = Some (roomId, a)"
    and "s' = on_MAKE_GUESS s sock isAI Rejected"
  shows "on_MAKE_GUESS_begin s sock isAI =
           Await (stopRoomTimer roomId s) (SubmitGuess roomId sock isAI) (GuessK sock a isAI) \<and>
         roomTimers (stopRoomTimer roomId s) roomId = None \<and>
         on_MAKE_GUESS_resume s1 (GuessK sock a isAI) Rejected =
           emit sock (ERROR ''Failed to submit guess'') s1 \<and>
         trace s' = trace (stopRoomTimer roomId s) @ [Emit sock (ERROR ''Failed to submit guess'')] \<and>
         heap s' = heap s \<and> rooms s' = rooms s \<and> waitingPlayers s' = waitingPlayers s \<and>
         socketRoomId s' = socketRoomId s \<and> turnTimers s' = turnTimers s \<and>
         roomTimers s' = (roomTimers s)(roomId := None) \<and>
         nextHandle s' = nextHandle s \<and>
         timers s' = (case roomTimers s roomId of None \<Rightarrow> timers s | Some h \<Rightarrow> (timers s)(h := None))"
  using assms
  by (simp add: on_MAKE_GUESS_def guess_begin on_MAKE_GUESS_resume_def emit_def
      stopRoomTimer_fields)

theorem failed_guess_witness:
  "trace (on_MAKE_GUESS st_paired ''a'' True Rejected) =
     trace st_paired @ [ClearTimer 0, Emit ''a'' (ERROR ''Failed to submit guess'')] \<and>
   isActive (heap (on_MAKE_GUESS st_paired ''a'' True Rejected) 0) \<and>
   rooms (on_MAKE_GUESS st_paired ''a'' True Rejected) ''r1'' = Some 0 \<and>
   roomTimers (on_MAKE_GUESS st_paired ''a'' True Rejected) ''r1'' = None \<and>
   timers (on_MAKE_GUESS st_paired ''a'' True Rejected) 0 = None"
  using failed_guess [of st_paired "''a''" "''r1''" 0 "on_MAKE_GUESS st_paired ''a'' True Rejected" True]
  by (simp add: st_paired_eq socket_room_def stopRoomTimer_fields new_room_def)

text \<open>
  C1 on the code. After a resolved guess in the sample room the room object is still
  active and still registered, the room timer is cleared, and no cleanup timeout was
  scheduled: no handle was handed out and no timer is live.
\<close>

theorem guess_leaves_room_registered:
  "isActive (heap (on_MAKE_GUESS st_paired ''a'' True (Resolved (Some row_ab))) 0) \<and>
   rooms (on_MAKE_GUESS st_paired ''a'' True (Resolved (Some row_ab))) ''r1'' = Some 0 \<and>
   timers (on_MAKE_GUESS st_paired ''a'' True (Resolved (Some row_ab))) = Map.empty \<and>
   nextHandle (on_MAKE_GUESS st_paired ''a'' True (Resolved (Some row_ab))) = nextHandle st_paired \<and>
   trace (on_MAKE_GUESS st_paired ''a'' True (Resolved (Some row_ab))) =
     trace st_paired @
     [ClearTimer 0, Emit ''a'' (GUESS_RESULT True True ''AI''),
      Emit ''b'' (GAME_OVER ''Your opponent has made their guess. The game is over.'')]"
  by (simp add: on_MAKE_GUESS_def on_MAKE_GUESS_begin_def on_MAKE_GUESS_resume_def st_paired_eq socket_room_def
     stopRoomTimer_def clearTimer_def emit_def new_room_def row_ab_def isCorrect_def actualType_def truthy_def otherPlayer_def)

lemma guess_never_retires_room:
  "heap (on_MAKE_GUESS s sock isAI reply) = heap s \<and>
   rooms (on_MAKE_GUESS s sock isAI reply) = rooms s \<and>
   nextHandle (on_MAKE_GUESS s sock isAI reply) = nextHandle s"
  by (cases "socket_room s sock")
    (auto simp: on_MAKE_GUESS_def on_MAKE_GUESS_begin_def on_MAKE_GUESS_resume_def emit_def
      stopRoomTimer_fields Let_def split: option.splits db_result.splits)

section \<open>Retirement\<close>

lemma st_retired_eq:
  "st_retired = st_paired\<lparr>heap := (heap st_paired)(0 := (heap st_paired 0)\<lparr>isActive := False\<rparr>),
      timers := (timers st_paired)(1 \<mapsto> (5000, RemoveSocketRoom ''a'')),
      nextHandle := 2,
      trace := trace st_paired @
        [Emit ''b'' (OPPONENT_DISCONNECTED ''Your opponent has retired from the game.'' (Some False)),
         Emit ''b'' (YOUR_TURN False (Some True) None)]\<rparr>"
  by (simp add: st_retired_def on_RETIRE_def st_paired_eq socket_room_def truthy_def otherPlayer_def new_room_def
     emit_def set_inactive_def setTimer_def)

text \<open>
  C2 on the code. In the sample room the room timer is handle 0, kept in \<open>roomTimers\<close>.
  After \<open>a\<close> retires it is still registered there and still live, and the trace of the
  handler holds the two notifications to \<open>b\<close> and no \<open>clearTimeout\<close>; the timer is only
  dropped by its own next tick, which finds the room inactive. \<open>handleDisconnect\<close> on
  the same state clears handle 0 before it notifies \<open>b\<close>.
\<close>

theorem retire_keeps_room_timer:
  "roomTimers st_paired ''r1'' = Some 0 \<and>
   roomTimers (on_RETIRE st_paired ''a'') ''r1'' = Some 0 \<and>
   timers (on_RETIRE st_paired ''a'') 0 = Some (1000, RoomTick 0 ''r1'' 120) \<and>
   trace (on_RETIRE st_paired ''a'') = trace st_paired @
        [Emit ''b'' (OPPONENT_DISCONNECTED ''Your opponent has retired from the game.'' (Some False)),
         Emit ''b'' (YOUR_TURN False (Some True) None)] \<and>
   trace (fire 0 (on_RETIRE st_paired ''a'')) = trace (on_RETIRE st_paired ''a'') @ [ClearTimer 0] \<and>
   trace (handleDisconnect st_paired ''a'') = trace st_paired @
        [ClearTimer 0,
         Emit ''b'' (OPPONENT_DISCONNECTED ''Your opponent has disconnected.'' (Some False)),
         Emit ''b'' (YOUR_TURN False (Some True) None)]"
  by (simp add: on_RETIRE_def handleDisconnect_def st_paired_eq socket_room_def truthy_def otherPlayer_def new_room_def
     emit_def set_inactive_def setTimer_def stopRoomTimer_def clearTimer_def fire_def room_tick_def)

section \<open>Relaying a message\<close>

lemma find_self:
  "truthy (List.find (\<lambda>p. p = sock) ps) = (if sock \<in> set ps \<and> sock \<noteq> [] then Some sock else None)"
  by (induction ps) (auto simp: truthy_def)

lemma otherPlayer_neq:
  "truthy (otherPlayer rm sock) = Some other \<Longrightarrow> other \<noteq> sock \<and> other \<noteq> [] \<and> other \<in> set (players rm)"
  by (auto simp: truthy_def otherPlayer_def find_Some_iff split: option.splits if_splits)

lemma send_begin:
  assumes "socket_room s sock = Some (roomId, a)"
    and "sock \<in> set (players (heap s a))" and "sock \<noteq> []"
    and "truthy (otherPlayer (heap s a) sock) = Some other"
  shows "on_SEND_MESSAGE_begin s sock txt =
     Await s (CreateMessage roomId (hd (players (heap s a)) = sock) txt sock) (SendK sock a other txt)"
  using assms
  by (cases "players (heap s a)") (auto simp: on_SEND_MESSAGE_begin_def find_self Let_def)

lemma socket_room_SomeD:
  "socket_room s sock = Some (roomId, a) \<Longrightarrow> socketRoomId s sock = Some roomId \<and> rooms s roomId = Some a \<and> roomId \<noteq> []"
  by (auto simp: socket_room_def split: option.splits if_splits)

lemma send_resume_ok:
  assumes "socketRoomId s sock = Some roomId" "rooms s roomId = Some a'"
  shows "on_SEND_MESSAGE_resume s (SendK sock a other txt) (Resolved u) ts =
     s\<lparr>heap := (heap s)(a := (heap s a)\<lparr>messages := messages (heap s a) @ [\<lparr>msg_text = txt, msg_timestamp = ts\<rparr>]\<rparr>),
       trace := trace s @ [Emit sock (RECEIVE_MESSAGE txt ts True), Emit other (RECEIVE_MESSAGE txt ts False),
                Emit other (YOUR_TURN True None (Some 900000))] @
                (case turnTimers s other of None \<Rightarrow> [] | Some h \<Rightarrow> [ClearTimer h]),
       timers := (case turnTimers s other of None \<Rightarrow> timers s | Some h \<Rightarrow> (timers s)(h := None))
                   (nextHandle s \<mapsto> (1000, TurnTick roomId other 900)),
       nextHandle := Suc (nextHandle s),
       turnTimers := (turnTimers s)(other \<mapsto> nextHandle s)\<rparr>"
  using assms
  by (auto simp: on_SEND_MESSAGE_resume_def emit_def startTurnCountdown_def clearTimer_def setTimer_def
      TURN_TIME_LIMIT_def Let_def split: option.splits)

lemma st_turn_eq: "st_turn = st_paired\<lparr>
    heap := (heap st_paired)(0 := (heap st_paired 0)\<lparr>messages := [\<lparr>msg_text = ''hi'', msg_timestamp = ''t0''\<rparr>]\<rparr>),
    trace := trace st_paired @ [Emit ''a'' (RECEIVE_MESSAGE ''hi'' ''t0'' True), Emit ''b'' (RECEIVE_MESSAGE ''hi'' ''t0'' False),
                Emit ''b'' (YOUR_TURN True None (Some 900000))],
    timers := (timers st_paired)(1 \<mapsto> (1000, TurnTick ''r1'' ''b'' 900)),
    nextHandle := 2,
    turnTimers := [''b'' \<mapsto> 1]\<rparr>"
  by (simp add: st_turn_def on_SEND_MESSAGE_def on_SEND_MESSAGE_begin_def st_paired_eq socket_room_def truthy_def otherPlayer_def new_room_def
     on_SEND_MESSAGE_resume_def emit_def startTurnCountdown_def setTimer_def TURN_TIME_LIMIT_def)

text \<open>
  C5 (as the code has it). For every relayed message (sender and another player found
  in the sender's registered room, \<open>createMessage\<close> resolved) the trace grows by the echo
  to the sender, then RECEIVE\_MESSAGE with \<open>isUser = false\<close> to the other player, then
  YOUR\_TURN to the other player with \<open>canSendMessage = true\<close> and \<open>timeLeft = 900000\<close>,
  the turn budget in milliseconds; the only thing after it is the \<open>clearTimeout\<close> of the
  recipient's previous turn timer, if there was one.
\<close>

theorem relay_turn_grant:
  assumes "socket_room s sock = Some (roomId, a)"
    and "sock \<in> set (players (heap s a))" and "sock \<noteq> []"
    and "truthy (otherPlayer (heap s a) sock) = Some other"
  shows "other \<noteq> sock \<and>
         trace (on_SEND_MESSAGE s sock txt (Resolved ()) ts) =
           trace s @
           [Emit sock (RECEIVE_MESSAGE txt ts True),
            Emit other (RECEIVE_MESSAGE txt ts False),
            Emit other (YOUR_TURN True None (Some 900000))] @
           (case turnTimers s other of None \<Rightarrow> [] | Some h \<Rightarrow> [ClearTimer h])"
  using otherPlayer_neq [OF assms(4)] socket_room_SomeD [OF assms(1)]
  by (simp add: on_SEND_MESSAGE_def send_begin [OF assms] send_resume_ok)

theorem relay_turn_grant_witness:
  "trace (on_SEND_MESSAGE st_paired ''b'' ''yo'' (Resolved ()) ''t1'') =
     trace st_paired @
     [Emit ''b'' (RECEIVE_MESSAGE ''yo'' ''t1'' True),
      Emit ''a'' (RECEIVE_MESSAGE ''yo'' ''t1'' False),
      Emit ''a'' (YOUR_TURN True None (Some 900000))]"
  using relay_turn_grant [of st_paired "''b''" "''r1''" 0 "''a''" "''yo''" "''t1''"]
  by (simp add: st_paired_eq socket_room_def truthy_def otherPlayer_def new_room_def)

text \<open>
  C5 as stated fails: after \<open>a\<close>'s message in the sample room, \<open>b\<close> is granted the turn
  with \<open>timeLeft = 900000\<close>; no YOUR\_TURN with 900 is in the trace.
\<close>

theorem turn_grant_in_milliseconds:
  "trace st_turn = trace st_paired @
     [Emit ''a'' (RECEIVE_MESSAGE ''hi'' ''t0'' True),
      Emit ''b'' (RECEIVE_MESSAGE ''hi'' ''t0'' False),
      Emit ''b'' (YOUR_TURN True None (Some 900000))] \<and>
   Emit ''b'' (YOUR_TURN True None (Some 900)) \<notin> set (trace st_turn)"
  by (simp add: st_turn_eq st_paired_eq)

text \<open>
  C4 (as the code has it). The handler asks only that \<open>socket.roomId\<close> is set and names
  a registered room, and that sender and another player are found in it; \<open>isActive\<close> is
  not read. Without such a room the sender gets \<open>ERROR 'Invalid room'\<close> and nothing else
  changes. With it, and \<open>createMessage\<close> resolved, the message is appended to the
  transcript and delivered, the sender gets no new error, and the recipient's turn
  timer is started, whatever the value of \<open>isActive\<close>, which is left as it was.
\<close>

theorem relay_needs_registered_room_only:
  "(socket_room s sock = None \<longrightarrow>
      on_SEND_MESSAGE s sock txt reply ts = emit sock (ERROR ''Invalid room'') s) \<and>
   (socket_room s sock = Some (roomId, a) \<and> sock \<in> set (players (heap s a)) \<and> sock \<noteq> [] \<and>
    truthy (otherPlayer (heap s a) sock) = Some other \<and>
    s' = on_SEND_MESSAGE s sock txt (Resolved ()) ts \<longrightarrow>
      messages (heap s' a) = messages (heap s a) @ [\<lparr>msg_text = txt, msg_timestamp = ts\<rparr>] \<and>
      isActive (heap s' a) = isActive (heap s a) \<and>
      Emit other (RECEIVE_MESSAGE txt ts False) \<in> set (trace s') \<and>
      (\<forall>m. Emit sock (ERROR m) \<in> set (trace s') \<longrightarrow> Emit sock (ERROR m) \<in> set (trace s)) \<and>
      turnTimers s' other = Some (nextHandle s) \<and>
      timers s' (nextHandle s) = Some (1000, TurnTick roomId other 900))"
proof (intro conjI impI)
  assume "socket_room s sock = None"
  then show "on_SEND_MESSAGE s sock txt reply ts = emit sock (ERROR ''Invalid room'') s"
    by (simp add: on_SEND_MESSAGE_def on_SEND_MESSAGE_begin_def)
next
  assume h: "socket_room s sock = Some (roomId, a) \<and> sock \<in> set (players (heap s a)) \<and> sock \<noteq> [] \<and>
    truthy (otherPlayer (heap s a) sock) = Some other \<and>
    s' = on_SEND_MESSAGE s sock txt (Resolved ()) ts"
  then have b: "on_SEND_MESSAGE_begin s sock txt =
     Await s (CreateMessage roomId (hd (players (heap s a)) = sock) txt sock) (SendK sock a other txt)"
    by (intro send_begin) auto
  have r: "socketRoomId s sock = Some roomId" "rooms s roomId = Some a"
    using h socket_room_SomeD by auto
  have s': "s' = on_SEND_MESSAGE_resume s (SendK sock a other txt) (Resolved ()) ts"
    using h by (simp add: on_SEND_MESSAGE_def b)
  have ne: "other \<noteq> sock" using h otherPlayer_neq by blast 
  show "messages (heap s' a) = messages (heap s a) @ [\<lparr>msg_text = txt, msg_timestamp = ts\<rparr>]"
    by (simp add: s' send_resume_ok [OF r])
  show "isActive (heap s' a) = isActive (heap s a)"
    by (simp add: s' send_resume_ok [OF r])
  show "Emit other (RECEIVE_MESSAGE txt ts False) \<in> set (trace s')"
    by (simp add: s' send_resume_ok [OF r])
  show "\<forall>m. Emit sock (ERROR m) \<in> set (trace s') \<longrightarrow> Emit sock (ERROR m) \<in> set (trace s)"
    by (auto simp: s' send_resume_ok [OF r] split: option.splits)
  show "turnTimers s' other = Some (nextHandle s)"
    by (simp add: s' send_resume_ok [OF r])
  show "timers s' (nextHandle s) = Some (1000, TurnTick roomId other 900)"
    by (simp add: s' send_resume_ok [OF r])
qed

theorem relay_needs_registered_room_only_witness:
  "\<not> isActive (heap st_retired 0) \<and>
   messages (heap (on_SEND_MESSAGE st_retired ''b'' ''yo'' (Resolved ()) ''t2'') 0) =
     messages (heap st_retired 0) @ [\<lparr>msg_text = ''yo'', msg_timestamp = ''t2''\<rparr>] \<and>
   on_SEND_MESSAGE init ''b'' ''yo'' (Resolved ()) ''t2'' = emit ''b'' (ERROR ''Invalid room'') init"
  using relay_needs_registered_room_only [of st_retired "''b''" "''yo''" "Resolved ()" "''t2''" "''r1''" 0 "''a''"
      "on_SEND_MESSAGE st_retired ''b'' ''yo'' (Resolved ()) ''t2''"]
    relay_needs_registered_room_only [of init "''b''" "''yo''" "Resolved ()" "''t2''" "''r1''" 0 "''a''" init]
  by (simp add: st_retired_eq st_paired_eq socket_room_def truthy_def otherPlayer_def new_room_def init_def)

text \<open>
  C4 as stated fails: after \<open>a\<close> retired, the sample room is inactive but registered
  until the cleanup timeout runs; a message of \<open>b\<close> is appended to the transcript,
  delivered to \<open>a\<close>, and starts a turn timer for \<open>a\<close>.
\<close>

theorem inactive_room_still_relays:
  "\<not> isActive (heap st_retired 0) \<and>
   socket_room st_retired ''b'' = Some (''r1'', 0) \<and>
   messages (heap (on_SEND_MESSAGE st_retired ''b'' ''hi'' (Resolved ()) ''t1'') 0) =
     [\<lparr>msg_text = ''hi'', msg_timestamp = ''t1''\<rparr>] \<and>
   trace (on_SEND_MESSAGE st_retired ''b'' ''hi'' (Resolved ()) ''t1'') =
     trace st_retired @
     [Emit ''b'' (RECEIVE_MESSAGE ''hi'' ''t1'' True),
      Emit ''a'' (RECEIVE_MESSAGE ''hi'' ''t1'' False),
      Emit ''a'' (YOUR_TURN True None (Some 900000))] \<and>
   turnTimers (on_SEND_MESSAGE st_retired ''b'' ''hi'' (Resolved ()) ''t1'') ''a'' = Some 2 \<and>
   timers (on_SEND_MESSAGE st_retired ''b'' ''hi'' (Resolved ()) ''t1'') 2 =
     Some (1000, TurnTick ''r1'' ''a'' 900)"
  by (simp add: on_SEND_MESSAGE_def on_SEND_MESSAGE_begin_def st_retired_eq st_paired_eq socket_room_def truthy_def otherPlayer_def new_room_def
     on_SEND_MESSAGE_resume_def emit_def startTurnCountdown_def setTimer_def TURN_TIME_LIMIT_def)

section \<open>Well-formedness is invariant\<close>

lemma wf_stateD:
  "wf_state s \<Longrightarrow> nextHandle s \<le> h \<Longrightarrow> timers s h = None"
  "wf_state s \<Longrightarrow> roomTimers s r = Some h \<Longrightarrow> h < nextHandle s"
  "wf_state s \<Longrightarrow> roomTimers s r = Some h \<Longrightarrow> timers s h \<noteq> Some (ms, TurnTick rm p n)"
  "wf_state s \<Longrightarrow> turnTimers s p = Some h \<Longrightarrow> h < nextHandle s"
  "wf_state s \<Longrightarrow> turnTimers s p = Some h \<Longrightarrow> timers s h = Some (ms, TurnTick rm q n) \<Longrightarrow> q = p"
  "wf_state s \<Longrightarrow> roomTimer (heap s a) = None"
  unfolding wf_state_def by blast+

lemma live_below_next: "wf_state s \<Longrightarrow> timers s h = Some x \<Longrightarrow> h < nextHandle s"
  by (metis wf_stateD(1) not_le_imp_less option.distinct(1))

lemma wf_irrelevant [simp]:
  "wf_state (s\<lparr>trace := t\<rparr>) = wf_state s"
  "wf_state (s\<lparr>waitingPlayers := w\<rparr>) = wf_state s"
  "wf_state (s\<lparr>rooms := rs\<rparr>) = wf_state s"
  "wf_state (s\<lparr>socketRoomId := sr\<rparr>) = wf_state s"
  "wf_state (s\<lparr>nextRef := k\<rparr>) = wf_state s"
  by (simp_all add: wf_state_def)

lemma wf_emit [simp]: "wf_state (emit p ev s) = wf_state s"
  by (simp add: emit_def)

lemma wf_emit_all [simp]: "wf_state (emit_all ps ev s) = wf_state s"
  unfolding emit_all_def by (induction ps arbitrary: s) simp_all

text \<open>Dropping timers or table entries keeps a state well-formed.\<close>

lemma wf_state_shrink:
  assumes "wf_state s"
    and "nextHandle s' = nextHandle s"
    and "\<And>h. timers s' h = None \<or> timers s' h = timers s h"
    and "\<And>r h. roomTimers s' r = Some h \<Longrightarrow> roomTimers s r = Some h"
    and "\<And>p h. turnTimers s' p = Some h \<Longrightarrow> turnTimers s p = Some h"
    and "\<And>a. roomTimer (heap s' a) = None"
  shows "wf_state s'"
  unfolding wf_state_def
proof (intro conjI allI impI)
  show "roomTimer (heap s' a) = None" for a
    by (rule assms(6))
  show "timers s' h = None" if "nextHandle s' \<le> h" for h
    using wf_stateD(1) [OF assms(1), of h] that assms(2) assms(3) [of h] by auto
  show "h < nextHandle s'" if "roomTimers s' r = Some h" for r h
    using wf_stateD(2) [OF assms(1) assms(4) [OF that]] assms(2) by simp
  show "timers s' h \<noteq> Some (ms, TurnTick rm q k)" if "roomTimers s' r = Some h" for r h ms rm q k
    using wf_stateD(3) [OF assms(1) assms(4) [OF that], of ms rm q k] assms(3) [of h] by auto
  show "h < nextHandle s'" if "turnTimers s' q = Some h" for q h
    using wf_stateD(4) [OF assms(1) assms(5) [OF that]] assms(2) by simp
  show "q' = q" if "turnTimers s' q = Some h" "timers s' h = Some (ms, TurnTick rm q' k)"
    for q h ms rm q' k
  proof -
    have "timers s h = Some (ms, TurnTick rm q' k)"
      using assms(3) [of h] that(2) by auto
    then show ?thesis
      by (rule wf_stateD(5) [OF assms(1) assms(5) [OF that(1)]])
  qed
qed

lemma wf_clearTimer [simp]: "wf_state s \<Longrightarrow> wf_state (clearTimer h s)"
  by (rule wf_state_shrink [of s]) (simp_all add: clearTimer_def wf_stateD(6))

lemma wf_timer_gone [simp]: "wf_state s \<Longrightarrow> wf_state (s\<lparr>timers := (timers s)(h := None)\<rparr>)"
  by (rule wf_state_shrink [of s]) (simp_all add: wf_stateD(6))

lemma wf_roomTimers_del [simp]:
  "wf_state s \<Longrightarrow> wf_state (s\<lparr>roomTimers := (roomTimers s)(r := None)\<rparr>)"
  by (rule wf_state_shrink [of s]) (simp_all add: wf_stateD(6) split: if_splits)

lemma wf_turnTimers_del [simp]:
  "wf_state s \<Longrightarrow> wf_state (s\<lparr>turnTimers := (turnTimers s)(p := None)\<rparr>)"
  by (rule wf_state_shrink [of s]) (simp_all add: wf_stateD(6) split: if_splits)

lemma wf_heap_upd:
  "wf_state s \<Longrightarrow> roomTimer rm = None \<Longrightarrow> wf_state (s\<lparr>heap := (heap s)(a := rm)\<rparr>)"
  by (rule wf_state_shrink [of s]) (simp_all add: wf_stateD(6))

lemma wf_set_inactive [simp]: "wf_state s \<Longrightarrow> wf_state (set_inactive a s)"
  by (simp add: set_inactive_def wf_heap_upd wf_stateD(6))

lemma wf_stopRoomTimer [simp]: "wf_state s \<Longrightarrow> wf_state (stopRoomTimer r s)"
  by (rule wf_state_shrink [of s])
    (simp_all add: stopRoomTimer_def clearTimer_def wf_stateD(6) split: option.splits if_splits)

text \<open>A new timer gets a handle that no table mentions.\<close>

lemma wf_setTimer [simp]:
  assumes "wf_state s"
  shows "wf_state (setTimer ms cb s)"
  unfolding wf_state_def
proof (intro conjI allI impI)
  let ?s = "setTimer ms cb s"
  have f: "nextHandle ?s = Suc (nextHandle s)" "roomTimers ?s = roomTimers s"
    "timers ?s = (timers s)(nextHandle s \<mapsto> (ms, cb))"
    "turnTimers ?s = turnTimers s" "heap ?s = heap s"
    by (simp_all add: setTimer_def)
  show "roomTimer (heap ?s a) = None" for a
    using wf_stateD(6) [OF assms] by (simp add: f)
  show "timers ?s h = None" if "nextHandle ?s \<le> h" for h
    using wf_stateD(1) [OF assms, of h] that by (simp add: f)
  show "h < nextHandle ?s" if "roomTimers ?s r = Some h" for r h
    using wf_stateD(2) [OF assms, of r h] that by (simp add: f)
  show "timers ?s h \<noteq> Some (ms', TurnTick rm q k)" if "roomTimers ?s r = Some h" for r h ms' rm q k
    using wf_stateD(2,3) [OF assms, of r h] that by (simp add: f)
  show "h < nextHandle ?s" if "turnTimers ?s q = Some h" for q h
    using wf_stateD(4) [OF assms, of q h] that by (simp add: f)
  show "q' = q" if "turnTimers ?s q = Some h" "timers ?s h = Some (ms', TurnTick rm q' k)"
    for q h ms' rm q' k
  proof -
    have t: "turnTimers s q = Some h" using that(1) by (simp add: f)
    then have "h \<noteq> nextHandle s" using wf_stateD(4) [OF assms t] by simp
    then have "timers s h = Some (ms', TurnTick rm q' k)" using that(2) by (simp add: f)
    then show ?thesis by (rule wf_stateD(5) [OF assms t])
  qed
qed

lemma wf_register_turn:
  assumes "wf_state s" and "timers s h = Some (ms, TurnTick r p n)"
  shows "wf_state (s\<lparr>turnTimers := (turnTimers s)(p \<mapsto> h)\<rparr>)"
  unfolding wf_state_def
proof (intro conjI allI impI)
  let ?s = "s\<lparr>turnTimers := (turnTimers s)(p \<mapsto> h)\<rparr>"
  show "roomTimer (heap ?s a) = None" for a
    using wf_stateD(6) [OF assms(1)] by simp
  show "timers ?s h' = None" if "nextHandle ?s \<le> h'" for h'
    using wf_stateD(1) [OF assms(1), of h'] that by simp
  show "h' < nextHandle ?s" if "roomTimers ?s r' = Some h'" for r' h'
    using wf_stateD(2) [OF assms(1), of r' h'] that by simp
  show "timers ?s h' \<noteq> Some (ms', TurnTick rm q k)" if "roomTimers ?s r' = Some h'"
    for r' h' ms' rm q k
    using wf_stateD(3) [OF assms(1), of r' h'] that by simp
  show "h' < nextHandle ?s" if "turnTimers ?s q = Some h'" for q h'
  proof (cases "q = p")
    case True
    then show ?thesis using that live_below_next [OF assms] by simp
  next
    case False
    then show ?thesis using that wf_stateD(4) [OF assms(1), of q h'] by simp
  qed
  show "q' = q" if "turnTimers ?s q = Some h'" "timers ?s h' = Some (ms', TurnTick rm q' k)"
    for q h' ms' rm q' k
  proof (cases "q = p")
    case True
    then show ?thesis using that assms(2) by simp
  next
    case False
    then have "turnTimers s q = Some h'" using that(1) by simp
    moreover have "timers s h' = Some (ms', TurnTick rm q' k)" using that(2) by simp
    ultimately show ?thesis by (rule wf_stateD(5) [OF assms(1)])
  qed
qed

lemma wf_register_room:
  assumes "wf_state s" and "timers s h = Some (ms, RoomTick a r n)"
  shows "wf_state (s\<lparr>roomTimers := (roomTimers s)(r' \<mapsto> h)\<rparr>)"
  unfolding wf_state_def
proof (intro conjI allI impI)
  let ?s = "s\<lparr>roomTimers := (roomTimers s)(r' \<mapsto> h)\<rparr>"
  show "roomTimer (heap ?s b) = None" for b
    using wf_stateD(6) [OF assms(1)] by simp
  show "timers ?s h' = None" if "nextHandle ?s \<le> h'" for h'
    using wf_stateD(1) [OF assms(1), of h'] that by simp
  show "h' < nextHandle ?s" if "roomTimers ?s q = Some h'" for q h'
  proof (cases "q = r'")
    case True
    then show ?thesis using that live_below_next [OF assms] by simp
  next
    case False
    then show ?thesis using that wf_stateD(2) [OF assms(1), of q h'] by simp
  qed
  show "timers ?s h' \<noteq> Some (ms', TurnTick rm q k)" if "roomTimers ?s q0 = Some h'"
    for q0 h' ms' rm q k
  proof (cases "q0 = r'")
    case True
    then show ?thesis using that assms(2) by simp
  next
    case False
    then show ?thesis using that wf_stateD(3) [OF assms(1), of q0 h'] by simp
  qed
  show "h' < nextHandle ?s" if "turnTimers ?s q = Some h'" for q h'
    using wf_stateD(4) [OF assms(1), of q h'] that by simp
  show "q' = q" if "turnTimers ?s q = Some h'" "timers ?s h' = Some (ms', TurnTick rm q' k)"
    for q h' ms' rm q' k
    using that wf_stateD(5) [OF assms(1), of q h' ms' rm q' k] by simp
qed

lemma setTimer_fields:
  "timers (setTimer ms cb s) = (timers s)(nextHandle s \<mapsto> (ms, cb))"
  "nextHandle (setTimer ms cb s) = Suc (nextHandle s)"
  "roomTimers (setTimer ms cb s) = roomTimers s"
  "turnTimers (setTimer ms cb s) = turnTimers s"
  "heap (setTimer ms cb s) = heap s"
  "rooms (setTimer ms cb s) = rooms s"
  "trace (setTimer ms cb s) = trace s"
  by (simp_all add: setTimer_def)

lemma wf_startTurnCountdown [simp]:
  assumes "wf_state s"
  shows "wf_state (startTurnCountdown r p s)"
proof (cases "rooms s r")
  case None
  then show ?thesis using assms by (simp add: startTurnCountdown_def)
next
  case (Some a)
  define s1 where "s1 = (case turnTimers s p of None \<Rightarrow> s | Some h \<Rightarrow> clearTimer h s)"
  define s2 where "s2 = setTimer 1000 (TurnTick r p (TURN_TIME_LIMIT div 1000)) s1"
  have w1: "wf_state s1"
    using assms by (simp add: s1_def split: option.splits)
  then have w2: "wf_state s2"
    by (simp add: s2_def)
  have "timers s2 (nextHandle s1) = Some (1000, TurnTick r p (TURN_TIME_LIMIT div 1000))"
    by (simp add: s2_def setTimer_fields)
  from wf_register_turn [OF w2 this]
  show ?thesis
    by (simp add: startTurnCountdown_def Some Let_def s1_def s2_def)
qed

lemma wf_startRoomCountdown [simp]:
  assumes "wf_state s"
  shows "wf_state (startRoomCountdown r s)"
proof (cases "rooms s r")
  case None
  then show ?thesis using assms by (simp add: startRoomCountdown_def)
next
  case (Some a)
  define s1 where "s1 = (case roomTimers s r of None \<Rightarrow> s | Some h \<Rightarrow> clearTimer h s)"
  define s2 where "s2 = setTimer 1000 (RoomTick a r (ROOM_TIME_LIMIT div 1000)) s1"
  have w1: "wf_state s1"
    using assms by (simp add: s1_def split: option.splits)
  then have w2: "wf_state s2"
    by (simp add: s2_def)
  have "timers s2 (nextHandle s1) = Some (1000, RoomTick a r (ROOM_TIME_LIMIT div 1000))"
    by (simp add: s2_def setTimer_fields)
  from wf_register_room [OF w2 this]
  show ?thesis
    by (simp add: startRoomCountdown_def Some Let_def s1_def s2_def)
qed

lemma wf_handleForfeit [simp]: "wf_state s \<Longrightarrow> wf_state (handleForfeit r p s)"
  by (simp add: handleForfeit_def Let_def split: option.splits)

text \<open>An interval that runs again keeps its handle and its kind.\<close>

lemma wf_retick:
  assumes "wf_state s" and "timers s h = Some (ms, cb)"
    and "\<And>r p n. cb = TurnTick r p n \<Longrightarrow> \<exists>n'. cb' = TurnTick r p n'"
    and "\<And>r p n. cb' = TurnTick r p n \<Longrightarrow> \<exists>n'. cb = TurnTick r p n'"
  shows "wf_state (s\<lparr>timers := (timers s)(h \<mapsto> (ms, cb'))\<rparr>)"
  unfolding wf_state_def
proof (intro conjI allI impI)
  let ?s = "s\<lparr>timers := (timers s)(h \<mapsto> (ms, cb'))\<rparr>"
  have lt: "h < nextHandle s" by (rule live_below_next [OF assms(1,2)])
  show "roomTimer (heap ?s b) = None" for b
    using wf_stateD(6) [OF assms(1)] by simp
  show "timers ?s h' = None" if "nextHandle ?s \<le> h'" for h'
    using wf_stateD(1) [OF assms(1), of h'] that lt by simp
  show "h' < nextHandle ?s" if "roomTimers ?s q = Some h'" for q h'
    using wf_stateD(2) [OF assms(1), of q h'] that by simp
  show "timers ?s h' \<noteq> Some (ms', TurnTick rm q k)" if "roomTimers ?s q0 = Some h'"
    for q0 h' ms' rm q k
  proof (cases "h' = h")
    case True
    have "cb \<noteq> TurnTick rm q k'" for k'
      using wf_stateD(3) [OF assms(1), of q0 h ms rm q k'] that True assms(2) by simp
    then have "cb' \<noteq> TurnTick rm q k" using assms(4) [of rm q k] by auto
    then show ?thesis using True by simp
  next
    case False
    then show ?thesis using that wf_stateD(3) [OF assms(1), of q0 h'] by simp
  qed
  show "h' < nextHandle ?s" if "turnTimers ?s q = Some h'" for q h'
    using wf_stateD(4) [OF assms(1), of q h'] that by simp
  show "q' = q" if "turnTimers ?s q = Some h'" "timers ?s h' = Some (ms', TurnTick rm q' k)"
    for q h' ms' rm q' k
  proof (cases "h' = h")
    case True
    then have "cb' = TurnTick rm q' k" using that(2) by simp
    then obtain k' where "cb = TurnTick rm q' k'" using assms(4) by blast
    then have "timers s h' = Some (ms, TurnTick rm q' k')" using assms(2) True by simp
    then show ?thesis using wf_stateD(5) [OF assms(1), of q h' ms rm q' k'] that(1) by simp
  next
    case False
    then show ?thesis using that wf_stateD(5) [OF assms(1), of q h' ms' rm q' k] by simp
  qed
qed

lemma timers_emit [simp]: "timers (emit p ev s) = timers s"
  by (simp add: emit_def)

lemma timers_emit_all [simp]: "timers (emit_all ps ev s) = timers s"
  unfolding emit_all_def by (induction ps arbitrary: s) simp_all

lemma wf_room_tick:
  assumes "wf_state s" and "timers s h = Some (ms, RoomTick a r n)"
  shows "wf_state (room_tick h ms a r n s)"
proof -
  have "wf_state ((emit_all ps ev s)\<lparr>timers := (timers s)(h \<mapsto> (ms, RoomTick a r n'))\<rparr>)" for ps ev n'
    using wf_retick [of "emit_all ps ev s" h ms "RoomTick a r n" "RoomTick a r n'"] assms by simp
  moreover have "wf_state ((clearTimer h s')\<lparr>roomTimers := (roomTimers s')(r := None)\<rparr>)"
    if "wf_state s'" for s'
    using that wf_roomTimers_del [of "clearTimer h s'" r] by (simp add: clearTimer_def)
  ultimately show ?thesis
    using assms(1) by (simp add: room_tick_def Let_def)
qed

lemma wf_turn_tick:
  assumes "wf_state s" and "timers s h = Some (ms, TurnTick r p n)"
  shows "wf_state (turn_tick h ms r p n s)"
proof -
  have "wf_state ((emit q ev s)\<lparr>timers := (timers s)(h \<mapsto> (ms, TurnTick r p n'))\<rparr>)" for q ev n'
    using wf_retick [of "emit q ev s" h ms "TurnTick r p n" "TurnTick r p n'"] assms by simp
  moreover have "wf_state ((clearTimer h s')\<lparr>turnTimers := (turnTimers s')(p := None)\<rparr>)"
    if "wf_state s'" for s'
    using that wf_turnTimers_del [of "clearTimer h s'" p] by (simp add: clearTimer_def)
  ultimately show ?thesis
    using assms(1) by (simp add: turn_tick_def Let_def)
qed

lemma wf_fire: "wf_state s \<Longrightarrow> wf_state (fire h s)"
  by (auto simp: fire_def Let_def wf_room_tick wf_turn_tick split: option.splits callback.splits)

lemma wf_assign_rooms [simp]: "wf_state (fold (assign_room r) ps s) = wf_state s"
  by (induction ps arbitrary: s) (simp_all add: assign_room_def)

lemma wf_notify_all [simp]: "wf_state (fold (notify_match r c a) xs s) = wf_state s"
  by (induction xs arbitrary: s) (simp_all add: notify_match_def)

lemma roomTimer_new_room [simp]: "roomTimer (new_room ps c n) = None"
  by (simp add: new_room_def)

lemma wf_join_resumed: "wf_state s \<Longrightarrow> wf_state (handleMatchmaking_resume s k reply c n)"
  by (cases k) (simp add: handleMatchmaking_resume_def Let_def wf_heap_upd split: option.splits)

lemma wf_send_resumed: "wf_state s \<Longrightarrow> wf_state (on_SEND_MESSAGE_resume s k reply ts)"
proof (cases k)
  case (SendK sock a other tx)
  assume w: "wf_state s"
  have "wf_state (s\<lparr>heap := (heap s)(a := (heap s a)\<lparr>messages := ms\<rparr>)\<rparr>)" for ms
    using w by (simp add: wf_heap_upd wf_stateD(6))
  then show ?thesis
    using w by (simp add: SendK on_SEND_MESSAGE_resume_def Let_def split: option.splits db_result.splits)
qed

lemma wf_guess_resumed: "wf_state s \<Longrightarrow> wf_state (on_MAKE_GUESS_resume s k reply)"
  by (cases k) (simp add: on_MAKE_GUESS_resume_def Let_def split: option.splits db_result.splits)

lemma wf_retire: "wf_state s \<Longrightarrow> wf_state (on_RETIRE s sock)"
proof -
  assume w: "wf_state s"
  then have "roomTimer (heap s a) = None" for a
    by (rule wf_stateD(6))
  then show ?thesis
    using w by (simp add: on_RETIRE_def Let_def emit_def split: option.splits prod.splits)
qed

lemma wf_disconnect: "wf_state s \<Longrightarrow> wf_state (handleDisconnect s sock)"
  by (simp add: handleDisconnect_def Let_def split: option.splits prod.splits)

lemma wf_init: "wf_state init"
  by (simp add: wf_state_def init_def empty_room_def)

lemma wf_step: "wf_state s \<Longrightarrow> wf_state (step s e)"
  by (cases e)
    (auto simp: handleMatchmaking_begin_def on_CANCEL_MATCHMAKING_def on_SEND_MESSAGE_begin_def
      on_TYPING_STATUS_def on_MAKE_GUESS_begin_def Let_def wf_join_resumed wf_send_resumed
      wf_guess_resumed wf_retire wf_disconnect wf_fire split: option.splits list.splits prod.splits)

lemma wf_run: "wf_state (foldl step init es)"
  by (induction es rule: rev_induct) (simp_all add: wf_init wf_step)

section \<open>The life of a turn timer\<close>

lemma emit_fields [simp]:
  "nextHandle (emit p ev s) = nextHandle s"
  "roomTimers (emit p ev s) = roomTimers s"
  "turnTimers (emit p ev s) = turnTimers s"
  "heap (emit p ev s) = heap s"
  "rooms (emit p ev s) = rooms s"
  "socketRoomId (emit p ev s) = socketRoomId s"
  "waitingPlayers (emit p ev s) = waitingPlayers s"
  "trace (emit p ev s) = trace s @ [Emit p ev]"
  by (simp_all add: emit_def)

lemma emit_all_fields [simp]:
  "nextHandle (emit_all ps ev s) = nextHandle s"
  "roomTimers (emit_all ps ev s) = roomTimers s"
  "turnTimers (emit_all ps ev s) = turnTimers s"
  "heap (emit_all ps ev s) = heap s"
  "rooms (emit_all ps ev s) = rooms s"
  unfolding emit_all_def by (induction ps arbitrary: s; simp)+

lemma clearTimer_fields [simp]:
  "nextHandle (clearTimer h s) = nextHandle s"
  "roomTimers (clearTimer h s) = roomTimers s"
  "turnTimers (clearTimer h s) = turnTimers s"
  "heap (clearTimer h s) = heap s"
  "rooms (clearTimer h s) = rooms s"
  "socketRoomId (clearTimer h s) = socketRoomId s"
  "timers (clearTimer h s) = (timers s)(h := None)"
  "trace (clearTimer h s) = trace s @ [ClearTimer h]"
  by (simp_all add: clearTimer_def)

lemma set_inactive_fields [simp]:
  "nextHandle (set_inactive a s) = nextHandle s"
  "roomTimers (set_inactive a s) = roomTimers s"
  "turnTimers (set_inactive a s) = turnTimers s"
  "timers (set_inactive a s) = timers s"
  "rooms (set_inactive a s) = rooms s"
  "trace (set_inactive a s) = trace s"
  by (simp_all add: set_inactive_def)

lemma stopRoomTimer_keeps:
  "roomTimers s r \<noteq> Some h \<Longrightarrow> timers (stopRoomTimer r s) h = timers s h"
  by (auto simp: stopRoomTimer_fields split: option.splits)

lemma startRoomCountdown_keeps:
  "roomTimers s r \<noteq> Some h \<Longrightarrow> h < nextHandle s \<Longrightarrow>
   timers (startRoomCountdown r s) h = timers s h"
  by (auto simp: startRoomCountdown_def setTimer_fields Let_def split: option.splits)

lemma startTurnCountdown_keeps:
  "turnTimers s q \<noteq> Some h \<Longrightarrow> h < nextHandle s \<Longrightarrow>
   timers (startTurnCountdown r q s) h = timers s h"
  by (auto simp: startTurnCountdown_def setTimer_fields Let_def split: option.splits)

lemma handleForfeit_keeps:
  "roomTimers s r \<noteq> Some h \<Longrightarrow> timers (handleForfeit r p s) h = timers s h"
  by (auto simp: handleForfeit_def Let_def stopRoomTimer_keeps split: option.splits)

lemma fold_assign_fields [simp]:
  "timers (fold (assign_room r) ps s) = timers s"
  "roomTimers (fold (assign_room r) ps s) = roomTimers s"
  "nextHandle (fold (assign_room r) ps s) = nextHandle s"
  by (induction ps arbitrary: s; simp add: assign_room_def)+

lemma fold_notify_fields [simp]:
  "timers (fold (notify_match r c a) xs s) = timers s"
  "roomTimers (fold (notify_match r c a) xs s) = roomTimers s"
  "nextHandle (fold (notify_match r c a) xs s) = nextHandle s"
  by (induction xs arbitrary: s; simp add: notify_match_def)+

text \<open>What a well-formed state says about the handle of a live turn countdown.\<close>

lemma turn_handle_facts:
  assumes "wf_state s" and "timers s h = Some (ms, TurnTick r p n)"
  shows "h < nextHandle s"
    and "roomTimers s r' \<noteq> Some h"
    and "q \<noteq> p \<Longrightarrow> turnTimers s q \<noteq> Some h"
    and "roomTimer (heap s a) = None"
proof -
  show "h < nextHandle s" by (rule live_below_next [OF assms])
  show "roomTimers s r' \<noteq> Some h"
    using wf_stateD(3) [OF assms(1), of r' h ms r p n] assms(2) by auto
  show "turnTimers s q \<noteq> Some h" if "q \<noteq> p"
    using wf_stateD(5) [OF assms(1), of q h ms r p n] assms(2) that by auto
  show "roomTimer (heap s a) = None" by (rule wf_stateD(6) [OF assms(1)])
qed

lemma fire_keeps:
  assumes "wf_state s" and "timers s h = Some (ms, TurnTick r p n)" and "h' \<noteq> h"
  shows "timers (fire h' s) h = timers s h"
proof (cases "timers s h'")
  case None
  then show ?thesis by (simp add: fire_def)
next
  case (Some x)
  obtain ms' cb where x: "x = (ms', cb)" by (cases x)
  note f = turn_handle_facts [OF assms(1,2)]
  show ?thesis
  proof (cases cb)
    case (RoomTick a r' k)
    then show ?thesis
      using assms(3) f(1)
      by (simp add: fire_def Some x room_tick_def Let_def setTimer_fields)
  next
    case (TurnTick r' q k)
    then show ?thesis
      using assms(3) f(2)
      by (simp add: fire_def Some x turn_tick_def Let_def handleForfeit_keeps)
  next
    case (RemoveSocketRoom sock)
    then show ?thesis
      using assms(3) by (simp add: fire_def Some x Let_def split: option.splits)
  next
    case (RemoveRoom r')
    then show ?thesis
      using assms(3) by (simp add: fire_def Some x Let_def)
  qed
qed

lemma step_keeps_turn_timer:
  assumes "wf_state s" and "timers s h = Some (ms, TurnTick r p n)"
    and "e \<noteq> EvTimer h"
    and "\<not> starts_turn_timer s e p"
  shows "timers (step s e) h = timers s h"
proof -
  note f = turn_handle_facts [OF assms(1,2)]
  show ?thesis
  proof (cases e)
    case (EvJoin sock c rid)
    then show ?thesis
      by (simp add: handleMatchmaking_begin_def Let_def split: list.splits)
  next
    case (EvJoinResumed k reply c now)
    then show ?thesis
      using f(1,2)
      by (cases k)
        (simp add: handleMatchmaking_resume_def Let_def startRoomCountdown_keeps split: option.splits)
  next
    case (EvCancel sock)
    then show ?thesis by (simp add: on_CANCEL_MATCHMAKING_def)
  next
    case (EvSend sock tx)
    then show ?thesis
      by (simp add: on_SEND_MESSAGE_begin_def Let_def split: option.splits prod.splits)
  next
    case (EvSendResumed k reply ts)
    obtain sock a other tx where k: "k = SendK sock a other tx" by (cases k)
    show ?thesis
    proof (cases reply)
      case Rejected
      then show ?thesis by (simp add: EvSendResumed k on_SEND_MESSAGE_resume_def)
    next
      case (Resolved u)
      show ?thesis
      proof (cases "other = p")
        case False
        then show ?thesis
          using f(1) f(3) [of other]
          by (simp add: EvSendResumed k Resolved on_SEND_MESSAGE_resume_def Let_def
              startTurnCountdown_keeps split: option.splits)
      next
        case True
        then have "socketRoomId s sock = None \<or>
            (\<exists>roomId. socketRoomId s sock = Some roomId \<and> rooms s roomId = None)"
          using assms(4)
          by (auto simp: starts_turn_timer_def EvSendResumed k Resolved split: option.splits)
        then show ?thesis
          by (auto simp: EvSendResumed k Resolved on_SEND_MESSAGE_resume_def Let_def
              startTurnCountdown_def)
      qed
    qed
  next
    case (EvTyping sock b)
    then show ?thesis
      by (simp add: on_TYPING_STATUS_def split: option.splits prod.splits)
  next
    case (EvGuess sock b)
    then show ?thesis
      using f(2)
      by (simp add: on_MAKE_GUESS_begin_def stopRoomTimer_keeps split: option.splits prod.splits)
  next
    case (EvGuessResumed k reply)
    then show ?thesis
      by (cases k) (simp add: on_MAKE_GUESS_resume_def Let_def split: option.splits db_result.splits)
  next
    case (EvRetire sock)
    then show ?thesis
      using f(1) f(4)
      by (simp add: on_RETIRE_def Let_def setTimer_fields split: option.splits prod.splits)
  next
    case (EvDisconnect sock)
    then show ?thesis
      using f(1) f(2)
      by (simp add: handleDisconnect_def Let_def setTimer_fields stopRoomTimer_keeps
          stopRoomTimer_fields split: option.splits prod.splits)
  next
    case (EvTimer h')
    then show ?thesis using assms(3) fire_keeps [OF assms(1,2)] by auto
  qed
qed

text \<open>A resolved message to \<open>p\<close> whose sender's room is registered replaces \<open>p\<close>'s countdown.\<close>

lemma replacement_cancels:
  assumes "wf_state s" and "socketRoomId s sock = Some r'" and "rooms s r' = Some a'"
    and "turnTimers s p = Some h"
    and "e = EvSendResumed (SendK sock a p tx) (Resolved u) ts"
  shows "starts_turn_timer s e p"
    and "timers (step s e) h = None"
    and "timers (step s e) (nextHandle s) = Some (1000, TurnTick r' p 900)"
    and "turnTimers (step s e) p = Some (nextHandle s)"
proof -
  have ne: "h \<noteq> nextHandle s"
    using wf_stateD(4) [OF assms(1,4)] by simp
  show "starts_turn_timer s e p"
    using assms(2,3) by (simp add: starts_turn_timer_def assms(5))
  show "timers (step s e) h = None"
    using assms(2,3,4) ne
    by (simp add: assms(5) on_SEND_MESSAGE_resume_def Let_def startTurnCountdown_def
        setTimer_fields)
  show "timers (step s e) (nextHandle s) = Some (1000, TurnTick r' p 900)"
    using assms(2,3,4)
    by (simp add: assms(5) on_SEND_MESSAGE_resume_def Let_def startTurnCountdown_def
        setTimer_fields TURN_TIME_LIMIT_def)
  show "turnTimers (step s e) p = Some (nextHandle s)"
    using assms(2,3,4)
    by (simp add: assms(5) on_SEND_MESSAGE_resume_def Let_def startTurnCountdown_def
        setTimer_fields)
qed

lemma wf_handleMatchmaking:
  "wf_state s \<Longrightarrow> wf_state (handleMatchmaking s sock c r reply cf now)"
  using wf_step [of s "EvJoin sock c r"]
  by (cases "handleMatchmaking_begin s sock c r") (simp_all add: handleMatchmaking_def wf_join_resumed)

lemma wf_on_SEND_MESSAGE:
  "wf_state s \<Longrightarrow> wf_state (on_SEND_MESSAGE s sock tx reply ts)"
  using wf_step [of s "EvSend sock tx"]
  by (cases "on_SEND_MESSAGE_begin s sock tx") (simp_all add: on_SEND_MESSAGE_def wf_send_resumed)

lemma wf_on_MAKE_GUESS:
  "wf_state s \<Longrightarrow> wf_state (on_MAKE_GUESS s sock b reply)"
  using wf_step [of s "EvGuess sock b"]
  by (cases "on_MAKE_GUESS_begin s sock b") (simp_all add: on_MAKE_GUESS_def wf_guess_resumed)

lemma wf_samples:
  "wf_state st_waiting" "wf_state st_paired" "wf_state st_turn" "wf_state st_gone"
  by (simp_all add: st_waiting_def st_paired_def st_turn_def st_gone_def wf_init
      wf_handleMatchmaking wf_on_SEND_MESSAGE wf_retire wf_fire)

lemma turn_tick_running:
  assumes "timers s h = Some (ms, TurnTick r p n)" and "1 < n"
  shows "fire h s = s\<lparr>trace := trace s @ [Emit p (TURN_TIME_UPDATE (n - 1) (n - 1 \<le> 5))],
                      timers := (timers s)(h \<mapsto> (ms, TurnTick r p (n - 1)))\<rparr>"
  using assms by (simp add: fire_def turn_tick_def emit_def Let_def)

lemma turn_tick_expiry_without_room:
  assumes "timers s h = Some (ms, TurnTick r p n)" and "n \<le> 1" and "rooms s r = None"
  shows "fire h s = s\<lparr>trace := trace s @ [Emit p (TURN_TIME_UPDATE (n - 1) True), ClearTimer h,
                                         Emit p TURN_TIME_UP],
                      timers := (timers s)(h := None),
                      turnTimers := (turnTimers s)(p := None)\<rparr>"
  using assms by (simp add: fire_def turn_tick_def emit_def clearTimer_def handleForfeit_def Let_def)

lemma turn_tick_expiry_with_room:
  assumes "timers s h = Some (ms, TurnTick r p n)" and "n \<le> 1" and "rooms s r = Some a"
  shows "fire h s =
     s\<lparr>trace := trace s @
          [Emit p (TURN_TIME_UPDATE (n - 1) True), ClearTimer h, Emit p TURN_TIME_UP] @
          (case roomTimers s r of None \<Rightarrow> [] | Some h' \<Rightarrow> [ClearTimer h']) @
          [Emit p (FORFEIT_RESULT (''You'' @ [CHR 0x27] @ ''ve lost your turn due to time running out.''))] @
          (case truthy (otherPlayer (heap s a) p) of
             None \<Rightarrow> []
           | Some other \<Rightarrow> [Emit other OPPONENT_FORFEIT]),
       timers := (case roomTimers s r of
                    None \<Rightarrow> (timers s)(h := None)
                  | Some h' \<Rightarrow> (timers s)(h := None, h' := None)),
       turnTimers := (turnTimers s)(p := None),
       roomTimers := (roomTimers s)(r := None)\<rparr>"
proof (cases "roomTimers s r")
  case None
  then have "(roomTimers s)(r := None) = roomTimers s" by auto
  then show ?thesis
    using assms None
    by (simp add: fire_def turn_tick_def emit_def clearTimer_def handleForfeit_def
        stopRoomTimer_def Let_def split: option.splits)
next
  case (Some h')
  then show ?thesis
    using assms
    by (simp add: fire_def turn_tick_def emit_def clearTimer_def handleForfeit_def
        stopRoomTimer_def Let_def split: option.splits)
qed

lemma ticks_down:
  assumes "timers s h = Some (ms, TurnTick r p n)" and "int k < n"
  shows "timers (((fire h) ^^ k) s) h = Some (ms, TurnTick r p (n - int k)) \<and>
         rooms (((fire h) ^^ k) s) = rooms s \<and>
         turnTimers (((fire h) ^^ k) s) = turnTimers s \<and>
         roomTimers (((fire h) ^^ k) s) = roomTimers s \<and>
         heap (((fire h) ^^ k) s) = heap s"
  using assms(2)
proof (induction k)
  case 0
  then show ?case using assms(1) by simp
next
  case (Suc k)
  then have ih: "timers (((fire h) ^^ k) s) h = Some (ms, TurnTick r p (n - int k))"
    "rooms (((fire h) ^^ k) s) = rooms s" "turnTimers (((fire h) ^^ k) s) = turnTimers s"
    "roomTimers (((fire h) ^^ k) s) = roomTimers s" "heap (((fire h) ^^ k) s) = heap s"
    by simp_all
  have "1 < n - int k" using Suc.prems by simp
  from turn_tick_running [OF ih(1) this] ih(2,3,4,5)
  show ?case by (simp add: algebra_simps)
qed

lemma wf_ticks: "wf_state s \<Longrightarrow> wf_state (((fire h) ^^ k) s)"
  by (induction k) (simp_all add: wf_fire)

lemma st_gone_facts:
  "timers st_gone 1 = Some (1000, TurnTick ''r1'' ''b'' 900)"
  "rooms st_gone = Map.empty"
  "turnTimers st_gone = [''b'' \<mapsto> 1]"
  by (simp_all add: st_gone_def on_RETIRE_def fire_def st_turn_eq st_paired_eq socket_room_def truthy_def otherPlayer_def new_room_def
     emit_def set_inactive_def setTimer_def)

lemma st_last_facts:
  "wf_state st_last"
  "timers st_last 1 = Some (1000, TurnTick ''r1'' ''b'' 1)"
  "rooms st_last ''r1'' = None"
  "turnTimers st_last ''b'' = Some 1"
proof -
  have "int 899 < 900" by simp
  from ticks_down [OF st_gone_facts(1) this]
  show "timers st_last 1 = Some (1000, TurnTick ''r1'' ''b'' 1)"
    and "rooms st_last ''r1'' = None"
    and "turnTimers st_last ''b'' = Some 1"
    by (simp_all add: st_last_def st_gone_facts)
  show "wf_state st_last"
    by (simp add: st_last_def wf_ticks wf_samples)
qed

lemma st_guessed_facts:
  "wf_state st_guessed"
  "timers st_guessed 1 = Some (1000, TurnTick ''r1'' ''b'' 900)"
  "rooms st_guessed = [''r1'' \<mapsto> 0]"
  "roomTimers st_guessed = Map.empty"
  "players (heap st_guessed 0) = [''a'', ''b'']"
  "isActive (heap st_guessed 0)"
proof -
  show "wf_state st_guessed"
    by (simp add: st_guessed_def wf_on_MAKE_GUESS wf_samples)
  show "timers st_guessed 1 = Some (1000, TurnTick ''r1'' ''b'' 900)"
    and "rooms st_guessed = [''r1'' \<mapsto> 0]"
    and "roomTimers st_guessed = Map.empty"
    and "players (heap st_guessed 0) = [''a'', ''b'']"
    and "isActive (heap st_guessed 0)"
    by (simp_all add: st_guessed_def on_MAKE_GUESS_def on_MAKE_GUESS_begin_def
        on_MAKE_GUESS_resume_def st_turn_eq st_paired_eq socket_room_def stopRoomTimer_def
        clearTimer_def emit_def new_room_def row_ab_def truthy_def otherPlayer_def)
qed

lemma st_guessed_last_facts:
  "wf_state st_guessed_last"
  "timers st_guessed_last 1 = Some (1000, TurnTick ''r1'' ''b'' 1)"
  "rooms st_guessed_last ''r1'' = Some 0"
  "roomTimers st_guessed_last ''r1'' = None"
  "players (heap st_guessed_last 0) = [''a'', ''b'']"
proof -
  have "int 899 < 900" by simp
  from ticks_down [OF st_guessed_facts(2) this]
  show "timers st_guessed_last 1 = Some (1000, TurnTick ''r1'' ''b'' 1)"
    and "rooms st_guessed_last ''r1'' = Some 0"
    and "roomTimers st_guessed_last ''r1'' = None"
    and "players (heap st_guessed_last 0) = [''a'', ''b'']"
    by (simp_all add: st_guessed_last_def st_guessed_facts)
  show "wf_state st_guessed_last"
    by (simp add: st_guessed_last_def wf_ticks st_guessed_facts)
qed

lemma st_turn_facts:
  "socketRoomId st_turn ''a'' = Some ''r1''"
  "rooms st_turn ''r1'' = Some 0"
  "turnTimers st_turn ''b'' = Some 1"
  "nextHandle st_turn = 2"
  "timers st_turn 1 = Some (1000, TurnTick ''r1'' ''b'' 900)"
  by (simp_all add: st_turn_eq st_paired_eq)

lemma st_gone_more:
  "socketRoomId st_gone ''a'' = Some ''r1''"
  by (simp add: st_gone_def on_RETIRE_def fire_def st_turn_eq st_paired_eq socket_room_def
      truthy_def otherPlayer_def new_room_def emit_def set_inactive_def setTimer_def)

text \<open>
  C10. In a well-formed state with a live turn countdown \<open>h\<close> of player \<open>p\<close>: every step
  other than the countdown's own callback and the step that starts the replacement
  countdown for \<open>p\<close> leaves \<open>h\<close> live and unchanged; this covers disconnect, retire,
  guess, the room timer's ticks and expiry, the removal of the room, and a message to
  \<open>p\<close> whose continuation finds no registered room. The replacing step clears \<open>h\<close>
  (when \<open>h\<close> is the handle kept for \<open>p\<close>) and installs a fresh countdown of 900
  seconds. While more than one second is left, the callback of \<open>h\<close> sends
  TURN\_TIME\_UPDATE and stays registered, whether or not the room is still in the
  registry. At expiry it sends the last update and TURN\_TIME\_UP and clears itself;
  then, with the room gone, \<open>handleForfeit\<close> does nothing, and with the room still
  registered (as after a guess) it stops the room timer and sends FORFEIT\_RESULT to
  \<open>p\<close> and OPPONENT\_FORFEIT to the other player.
\<close>

theorem turn_timer_outlives_session:
  assumes "wf_state s" and "timers s h = Some (ms, TurnTick roomId p n)"
  shows "(e \<noteq> EvTimer h \<and> \<not> starts_turn_timer s e p \<longrightarrow>
            timers (step s e) h = Some (ms, TurnTick roomId p n)) \<and>
         (socketRoomId s sock = Some r' \<and> rooms s r' = Some a' \<and> turnTimers s p = Some h \<longrightarrow>
            starts_turn_timer s (EvSendResumed (SendK sock a p tx) (Resolved u) ts) p \<and>
            timers (step s (EvSendResumed (SendK sock a p tx) (Resolved u) ts)) h = None \<and>
            timers (step s (EvSendResumed (SendK sock a p tx) (Resolved u) ts)) (nextHandle s) =
              Some (1000, TurnTick r' p 900) \<and>
            turnTimers (step s (EvSendResumed (SendK sock a p tx) (Resolved u) ts)) p =
              Some (nextHandle s)) \<and>
         (1 < n \<longrightarrow>
            step s (EvTimer h) =
              s\<lparr>trace := trace s @ [Emit p (TURN_TIME_UPDATE (n - 1) (n - 1 \<le> 5))],
                timers := (timers s)(h \<mapsto> (ms, TurnTick roomId p (n - 1)))\<rparr>) \<and>
         (n \<le> 1 \<and> rooms s roomId = None \<longrightarrow>
            step s (EvTimer h) =
              s\<lparr>trace := trace s @ [Emit p (TURN_TIME_UPDATE (n - 1) True), ClearTimer h,
                                    Emit p TURN_TIME_UP],
                timers := (timers s)(h := None),
                turnTimers := (turnTimers s)(p := None)\<rparr>) \<and>
         (n \<le> 1 \<and> rooms s roomId = Some b \<longrightarrow>
            step s (EvTimer h) =
              s\<lparr>trace := trace s @
                  [Emit p (TURN_TIME_UPDATE (n - 1) True), ClearTimer h, Emit p TURN_TIME_UP] @
                  (case roomTimers s roomId of None \<Rightarrow> [] | Some h' \<Rightarrow> [ClearTimer h']) @
                  [Emit p (FORFEIT_RESULT
                     (''You'' @ [CHR 0x27] @ ''ve lost your turn due to time running out.''))] @
                  (case truthy (otherPlayer (heap s b) p) of
                     None \<Rightarrow> []
                   | Some other \<Rightarrow> [Emit other OPPONENT_FORFEIT]),
                timers := (case roomTimers s roomId of
                             None \<Rightarrow> (timers s)(h := None)
                           | Some h' \<Rightarrow> (timers s)(h := None, h' := None)),
                turnTimers := (turnTimers s)(p := None),
                roomTimers := (roomTimers s)(roomId := None)\<rparr>)"
proof (intro conjI impI)
  assume "e \<noteq> EvTimer h \<and> \<not> starts_turn_timer s e p"
  then show "timers (step s e) h = Some (ms, TurnTick roomId p n)"
    using step_keeps_turn_timer [OF assms, of e] assms(2) by simp
next
  assume r: "socketRoomId s sock = Some r' \<and> rooms s r' = Some a' \<and> turnTimers s p = Some h"
  let ?e = "EvSendResumed (SendK sock a p tx) (Resolved u) ts"
  have e: "?e = EvSendResumed (SendK sock a p tx) (Resolved u) ts" by simp
  from r have r1: "socketRoomId s sock = Some r'" and r2: "rooms s r' = Some a'"
    and r3: "turnTimers s p = Some h"
    by simp_all
  show "starts_turn_timer s ?e p"
    by (rule replacement_cancels(1) [OF assms(1) r1 r2 r3 e])
  show "timers (step s ?e) h = None"
    by (rule replacement_cancels(2) [OF assms(1) r1 r2 r3 e])
  show "timers (step s ?e) (nextHandle s) = Some (1000, TurnTick r' p 900)"
    by (rule replacement_cancels(3) [OF assms(1) r1 r2 r3 e])
  show "turnTimers (step s ?e) p = Some (nextHandle s)"
    by (rule replacement_cancels(4) [OF assms(1) r1 r2 r3 e])
next
  assume "1 < n"
  then show "step s (EvTimer h) =
              s\<lparr>trace := trace s @ [Emit p (TURN_TIME_UPDATE (n - 1) (n - 1 \<le> 5))],
                timers := (timers s)(h \<mapsto> (ms, TurnTick roomId p (n - 1)))\<rparr>"
    using turn_tick_running [OF assms(2)] by simp
next
  assume "n \<le> 1 \<and> rooms s roomId = None"
  then show "step s (EvTimer h) =
              s\<lparr>trace := trace s @ [Emit p (TURN_TIME_UPDATE (n - 1) True), ClearTimer h,
                                    Emit p TURN_TIME_UP],
                timers := (timers s)(h := None),
                turnTimers := (turnTimers s)(p := None)\<rparr>"
    using turn_tick_expiry_without_room [OF assms(2)] by simp
next
  assume "n \<le> 1 \<and> rooms s roomId = Some b"
  then show "step s (EvTimer h) =
              s\<lparr>trace := trace s @
                  [Emit p (TURN_TIME_UPDATE (n - 1) True), ClearTimer h, Emit p TURN_TIME_UP] @
                  (case roomTimers s roomId of None \<Rightarrow> [] | Some h' \<Rightarrow> [ClearTimer h']) @
                  [Emit p (FORFEIT_RESULT
                     (''You'' @ [CHR 0x27] @ ''ve lost your turn due to time running out.''))] @
                  (case truthy (otherPlayer (heap s b) p) of
                     None \<Rightarrow> []
                   | Some other \<Rightarrow> [Emit other OPPONENT_FORFEIT]),
                timers := (case roomTimers s roomId of
                             None \<Rightarrow> (timers s)(h := None)
                           | Some h' \<Rightarrow> (timers s)(h := None, h' := None)),
                turnTimers := (turnTimers s)(p := None),
                roomTimers := (roomTimers s)(roomId := None)\<rparr>"
    using turn_tick_expiry_with_room [OF assms(2), of b] by simp
qed

theorem turn_timer_outlives_session_witness:
  "timers (step st_turn (EvRetire ''a'')) 1 = Some (1000, TurnTick ''r1'' ''b'' 900) \<and>
   timers (step st_turn (EvDisconnect ''a'')) 1 = Some (1000, TurnTick ''r1'' ''b'' 900) \<and>
   timers (step st_turn (EvGuess ''a'' True)) 1 = Some (1000, TurnTick ''r1'' ''b'' 900) \<and>
   timers (step st_turn (EvGuessResumed (GuessK ''a'' 0 True) (Resolved (Some row_ab)))) 1 =
     Some (1000, TurnTick ''r1'' ''b'' 900) \<and>
   timers (step st_turn (EvTimer 0)) 1 = Some (1000, TurnTick ''r1'' ''b'' 900) \<and>
   timers (step st_turn (EvSendResumed (SendK ''a'' 0 ''b'' ''x'') (Resolved ()) ''t1'')) 1 = None \<and>
   timers (step st_turn (EvSendResumed (SendK ''a'' 0 ''b'' ''x'') (Resolved ()) ''t1'')) 2 =
     Some (1000, TurnTick ''r1'' ''b'' 900) \<and>
   rooms st_gone ''r1'' = None \<and>
   timers (step st_gone (EvSendResumed (SendK ''a'' 0 ''b'' ''x'') (Resolved ()) ''t1'')) 1 =
     Some (1000, TurnTick ''r1'' ''b'' 900) \<and>
   trace (step st_gone (EvTimer 1)) = trace st_gone @ [Emit ''b'' (TURN_TIME_UPDATE 899 False)] \<and>
   timers (step st_gone (EvTimer 1)) 1 = Some (1000, TurnTick ''r1'' ''b'' 899) \<and>
   trace (step st_last (EvTimer 1)) =
     trace st_last @ [Emit ''b'' (TURN_TIME_UPDATE 0 True), ClearTimer 1, Emit ''b'' TURN_TIME_UP] \<and>
   timers (step st_last (EvTimer 1)) 1 = None \<and>
   rooms st_guessed_last ''r1'' = Some 0 \<and>
   trace (step st_guessed_last (EvTimer 1)) =
     trace st_guessed_last @
     [Emit ''b'' (TURN_TIME_UPDATE 0 True), ClearTimer 1, Emit ''b'' TURN_TIME_UP,
      Emit ''b'' (FORFEIT_RESULT (''You'' @ [CHR 0x27] @ ''ve lost your turn due to time running out.'')),
      Emit ''a'' OPPONENT_FORFEIT] \<and>
   timers (step st_guessed_last (EvTimer 1)) 1 = None"
proof -
  note turn = turn_timer_outlives_session [OF wf_samples(3) st_turn_facts(5)]
  note gone = turn_timer_outlives_session [OF wf_samples(4) st_gone_facts(1)]
  note last = turn_timer_outlives_session [OF st_last_facts(1,2)]
  note glast = turn_timer_outlives_session [OF st_guessed_last_facts(1,2)]
  have 1: "timers (step st_turn (EvRetire ''a'')) 1 = Some (1000, TurnTick ''r1'' ''b'' 900)"
    using turn [where e = "EvRetire ''a''"] by (simp add: starts_turn_timer_def)
  have 2: "timers (step st_turn (EvDisconnect ''a'')) 1 = Some (1000, TurnTick ''r1'' ''b'' 900)"
    using turn [where e = "EvDisconnect ''a''"] by (simp add: starts_turn_timer_def)
  have 3: "timers (step st_turn (EvGuess ''a'' True)) 1 = Some (1000, TurnTick ''r1'' ''b'' 900)"
    using turn [where e = "EvGuess ''a'' True"] by (simp add: starts_turn_timer_def)
  have 4: "timers (step st_turn (EvGuessResumed (GuessK ''a'' 0 True) (Resolved (Some row_ab)))) 1 =
     Some (1000, TurnTick ''r1'' ''b'' 900)"
    using turn [where e = "EvGuessResumed (GuessK ''a'' 0 True) (Resolved (Some row_ab))"]
    by (simp add: starts_turn_timer_def)
  have 5: "timers (step st_turn (EvTimer 0)) 1 = Some (1000, TurnTick ''r1'' ''b'' 900)"
    using turn [where e = "EvTimer 0"] by (simp add: starts_turn_timer_def)
  have 6: "timers (step st_turn (EvSendResumed (SendK ''a'' 0 ''b'' ''x'') (Resolved ()) ''t1'')) 1 = None \<and>
    timers (step st_turn (EvSendResumed (SendK ''a'' 0 ''b'' ''x'') (Resolved ()) ''t1'')) 2 =
      Some (1000, TurnTick ''r1'' ''b'' 900)"
    using turn [where sock = "''a''" and r' = "''r1''" and a' = 0 and a = 0 and tx = "''x''"
        and u = "()" and ts = "''t1''"] st_turn_facts
    by simp
  have 7: "timers (step st_gone (EvSendResumed (SendK ''a'' 0 ''b'' ''x'') (Resolved ()) ''t1'')) 1 =
     Some (1000, TurnTick ''r1'' ''b'' 900)"
    using gone [where e = "EvSendResumed (SendK ''a'' 0 ''b'' ''x'') (Resolved ()) ''t1''"]
      st_gone_more st_gone_facts
    by (simp add: starts_turn_timer_def)
  have 8: "step st_gone (EvTimer 1) =
      st_gone\<lparr>trace := trace st_gone @ [Emit ''b'' (TURN_TIME_UPDATE 899 False)],
        timers := (timers st_gone)(1 \<mapsto> (1000, TurnTick ''r1'' ''b'' 899))\<rparr>"
    using gone by simp
  have 9: "step st_last (EvTimer 1) =
      st_last\<lparr>trace := trace st_last @ [Emit ''b'' (TURN_TIME_UPDATE 0 True), ClearTimer 1,
          Emit ''b'' TURN_TIME_UP],
        timers := (timers st_last)(1 := None),
        turnTimers := (turnTimers st_last)(''b'' := None)\<rparr>"
    using last st_last_facts by simp
  have 10: "step st_guessed_last (EvTimer 1) =
      st_guessed_last\<lparr>trace := trace st_guessed_last @
          [Emit ''b'' (TURN_TIME_UPDATE 0 True), ClearTimer 1, Emit ''b'' TURN_TIME_UP,
           Emit ''b'' (FORFEIT_RESULT (''You'' @ [CHR 0x27] @ ''ve lost your turn due to time running out.'')),
           Emit ''a'' OPPONENT_FORFEIT],
        timers := (timers st_guessed_last)(1 := None),
        turnTimers := (turnTimers st_guessed_last)(''b'' := None),
        roomTimers := (roomTimers st_guessed_last)(''r1'' := None)\<rparr>"
    using glast [where b = 0] st_guessed_last_facts
    by (simp add: truthy_def otherPlayer_def)
  show ?thesis
    unfolding 8 9 10
    using 1 2 3 4 5 6 7 st_gone_facts st_guessed_last_facts
    by simp
qed


section \<open>Further facts about the handlers\<close>

text \<open>The \<open>catch\<close> block of \<open>handleMatchmaking\<close>, whatever happened during the call.\<close>

lemma failed_pairing_resume:
  "usable_conversation reply = None \<Longrightarrow>
   handleMatchmaking_resume s (MatchK sock ps roomId) reply coinFirst now =
     (emit sock (ERROR ''Failed to join matchmaking'') s)
       \<lparr>waitingPlayers := AList.delete sock (waitingPlayers s)\<rparr>"
  by (simp add: handleMatchmaking_resume_def Let_def)

text \<open>
  In a well-formed state RETIRE clears no timer at all: \<open>room.roomTimer\<close> is never set.
\<close>

lemma retire_never_stops_room_timer:
  assumes "wf_state s"
  shows "roomTimers (on_RETIRE s sock) = roomTimers s \<and>
         (h \<noteq> nextHandle s \<longrightarrow> timers (on_RETIRE s sock) h = timers s h) \<and>
         (ClearTimer h \<in> set (trace (on_RETIRE s sock)) \<longrightarrow> ClearTimer h \<in> set (trace s))"
proof -
  have "roomTimer (heap s a) = None" for a
    by (rule wf_stateD(6) [OF assms])
  then show ?thesis
    by (auto simp: on_RETIRE_def Let_def setTimer_def split: option.splits prod.splits)
qed

lemma distinct_assign_rooms:
  "distinct (map fst (waitingPlayers s)) \<Longrightarrow>
   distinct (map fst (waitingPlayers (fold (assign_room r) ps s)))"
  by (induction ps arbitrary: s) (simp_all add: assign_room_def AList.distinct_delete)

lemma waiting_notify [simp]:
  "waitingPlayers (fold (notify_match r c a) xs s) = waitingPlayers s"
  by (induction xs arbitrary: s) (simp_all add: notify_match_def)

lemma waiting_startRoomCountdown [simp]:
  "waitingPlayers (startRoomCountdown r s) = waitingPlayers s"
  by (simp add: startRoomCountdown_fields)

lemma waiting_startTurnCountdown [simp]:
  "waitingPlayers (startTurnCountdown r p s) = waitingPlayers s"
  by (simp add: startTurnCountdown_def Let_def setTimer_def clearTimer_def split: option.splits)

lemma waiting_handleForfeit [simp]:
  "waitingPlayers (handleForfeit r p s) = waitingPlayers s"
  by (simp add: handleForfeit_def Let_def stopRoomTimer_fields split: option.splits)

lemma waiting_emit_all [simp]: "waitingPlayers (emit_all ps ev s) = waitingPlayers s"
  unfolding emit_all_def by (induction ps arbitrary: s) simp_all

lemma waiting_fire [simp]: "waitingPlayers (fire h s) = waitingPlayers s"
  by (simp add: fire_def room_tick_def turn_tick_def Let_def setTimer_def clearTimer_def
      set_inactive_def split: option.splits callback.splits prod.splits)

lemma waiting_join_begin:
  "waitingPlayers (state_of (handleMatchmaking_begin s sock c rid)) =
     (if socket_room s sock \<noteq> None \<or> map_of (waitingPlayers s) sock \<noteq> None
      then waitingPlayers s
      else AList.update sock c (waitingPlayers s))"
  by (simp add: handleMatchmaking_begin_def Let_def emit_def split: list.splits)

text \<open>The keys of the waiting list stay unique, as those of a \<open>Map\<close> are.\<close>

lemma queue_keys_distinct_step:
  assumes "distinct (map fst (waitingPlayers s))"
  shows "distinct (map fst (waitingPlayers (step s e)))"
proof (cases e)
  case (EvJoin sock c rid)
  then show ?thesis
    using assms AList.distinct_update [OF assms, of sock c]
    by (simp add: waiting_join_begin)
next
  case (EvJoinResumed k reply c now)
  then show ?thesis
    using assms
    by (cases k)
      (simp add: handleMatchmaking_resume_def Let_def AList.distinct_delete distinct_assign_rooms
        split: option.splits)
next
  case (EvCancel sock)
  then show ?thesis using assms by (simp add: on_CANCEL_MATCHMAKING_def AList.distinct_delete)
next
  case (EvSend sock tx)
  then show ?thesis using assms
    by (simp add: on_SEND_MESSAGE_begin_def Let_def split: option.splits prod.splits)
next
  case (EvSendResumed k reply ts)
  then show ?thesis using assms
    by (cases k) (simp add: on_SEND_MESSAGE_resume_def Let_def split: option.splits db_result.splits)
next
  case (EvTyping sock b)
  then show ?thesis using assms
    by (simp add: on_TYPING_STATUS_def split: option.splits prod.splits)
next
  case (EvGuess sock b)
  then show ?thesis using assms
    by (simp add: on_MAKE_GUESS_begin_def stopRoomTimer_fields split: option.splits prod.splits)
next
  case (EvGuessResumed k reply)
  then show ?thesis using assms
    by (cases k) (simp add: on_MAKE_GUESS_resume_def Let_def split: option.splits db_result.splits)
next
  case (EvRetire sock)
  then show ?thesis using assms
    by (simp add: on_RETIRE_def Let_def setTimer_def set_inactive_def clearTimer_def
        split: option.splits prod.splits)
next
  case (EvDisconnect sock)
  then show ?thesis using assms
    by (simp add: handleDisconnect_def Let_def setTimer_def set_inactive_def stopRoomTimer_fields
        AList.distinct_delete split: option.splits prod.splits)
next
  case (EvTimer h)
  then show ?thesis using assms by simp
qed

lemma queue_keys_distinct_run: "distinct (map fst (waitingPlayers (foldl step init es)))"
  by (induction es rule: rev_induct) (simp_all add: queue_keys_distinct_step, simp add: init_def)

end
